theory Spec2Isabelle
  imports
    Complex_Main
    "HOL-Library.Log_Nat"
    "HOL-Library.Char_ord"
    "HOL-Library.List_Lexorder"
    "HOL-Library.Multiset"
begin

section \<open>Python values used by the backup check\<close>

text \<open>
  The script \<^verbatim>\<open>Datto_backup_check.py\<close> polls the device API, evaluates every visible
  device and its assets against fixed thresholds, collects the findings, and optionally
  mails them. This theory embeds the script: its module-level variables are the fields of
  a state record, the answers of the API, the clock and the library routines whose code is
  not part of the repository are the fields of a record \<open>world\<close>, and every exception the
  script can meet is a value of the type \<open>error\<close>.
\<close>

datatype error =
    ZeroDivisionError
  | OverflowError
  | IndexError
  | ValueError
  | OSError
  | SystemExit int

subsection \<open>Binary floating point\<close>

text \<open>
  A Python \<^verbatim>\<open>float\<close> is an IEEE-754 binary64 number. A finite one is modelled by the
  rational it denotes (the sign of a zero is not kept). \<open>to_double\<close> rounds a rational to
  the nearest number with a 53-bit significand, ties to the even significand, with the
  exponent bounded below as for subnormal numbers. A result of magnitude \<open>2 ^ 1024\<close> or
  more stands for a rounding that leaves the finite range.
\<close>

definition round_half_even :: "rat \<Rightarrow> int" where
  "round_half_even x =
     (let f = \<lfloor>x\<rfloor>; r = x - of_int f
      in if r < 1 / 2 then f
         else if 1 / 2 < r then f + 1
         else if even f then f else f + 1)"

definition floor_log2 :: "rat \<Rightarrow> int" where
  "floor_log2 a =
     (let p = fst (quotient_of a); q = snd (quotient_of a); d = bitlen p - bitlen q
      in if 2 powi d \<le> a then d else d - 1)"

definition to_double :: "rat \<Rightarrow> rat" where
  "to_double x =
     (if x = 0 then 0
      else let e = max (floor_log2 \<bar>x\<bar>) (- 1022); u = 2 powi (e - 52)
           in sgn x * (of_int (round_half_even (\<bar>x\<bar> / u)) * u))"

definition double_max_bound :: rat where
  "double_max_bound = 2 ^ 1024"

datatype pyfloat = Finite rat | PosInf | NegInf

text \<open>\<^verbatim>\<open>a / b\<close> on two Python integers: correctly rounded true division.\<close>

definition int_truediv :: "int \<Rightarrow> int \<Rightarrow> error + rat" where
  "int_truediv a b =
     (if b = 0 then Inl ZeroDivisionError
      else let r = to_double (of_int a / of_int b)
           in if double_max_bound \<le> \<bar>r\<bar> then Inl OverflowError else Inr r)"

text \<open>
  \<^verbatim>\<open>float("{0:.2f}".format(x))\<close>: the exact value of \<open>x\<close> is rounded to two
  decimals (ties to even), written out, and the decimal read back as the nearest double.
  The intermediate string is represented by the decimal it spells.
\<close>

definition format_2f :: "rat \<Rightarrow> rat" where
  "format_2f x = of_int (round_half_even (x * 100)) / 100"

definition float_of_decimal :: "rat \<Rightarrow> rat" where
  "float_of_decimal d = to_double d"

text \<open>\<^verbatim>\<open>x * 100\<close> on a float: the product is rounded, and overflows to an infinity.\<close>

definition float_mul :: "rat \<Rightarrow> rat \<Rightarrow> pyfloat" where
  "float_mul x y =
     (let r = to_double (x * y)
      in if double_max_bound \<le> r then PosInf
         else if r \<le> - double_max_bound then NegInf
         else Finite r)"

text \<open>\<^verbatim>\<open>x > n\<close> between a float and an integer compares the exact values.\<close>

fun float_gt_int :: "pyfloat \<Rightarrow> int \<Rightarrow> bool" where
  "float_gt_int (Finite r) n = (of_int n < r)"
| "float_gt_int PosInf n = True"
| "float_gt_int NegInf n = False"

text \<open>\<^verbatim>\<open>int(x)\<close> on a finite float truncates towards zero.\<close>

definition py_int :: "rat \<Rightarrow> int" where
  "py_int x = (if 0 \<le> x then \<lfloor>x\<rfloor> else \<lceil>x\<rceil>)"

text \<open>
  \<^verbatim>\<open>timedelta.total_seconds()\<close>: a time difference is a whole number of microseconds;
  the method divides it by \<open>10^6\<close> as a float. The library bounds a difference below
  \<open>2^67\<close> microseconds, so the division does not overflow.
\<close>

definition total_seconds :: "int \<Rightarrow> rat" where
  "total_seconds us = to_double (of_int us / 1000000)"


definition binade :: "rat \<Rightarrow> int" where
  "binade x = max (floor_log2 \<bar>x\<bar>) (- 1022)"

subsection \<open>Strings\<close>

text \<open>
  Strings are lists of characters. \<open>str_int\<close> is \<^verbatim>\<open>str\<close> (and \<^verbatim>\<open>{}\<close> in a format
  string) on an integer, \<open>join\<close> is \<^verbatim>\<open>sep.join\<close>, and \<open>rstrip\<close> is \<^verbatim>\<open>str.rstrip\<close>
  with the set of characters to strip. \<^verbatim>\<open>str.upper\<close> follows Unicode's case mapping and
  is a routine of the world below; \<open>ascii_upper\<close> is what it does on ASCII text, and serves
  the examples.
\<close>

fun str_nat :: "nat \<Rightarrow> string" where
  "str_nat n =
     (if n < 10 then [char_of (48 + n)]
      else str_nat (n div 10) @ [char_of (48 + n mod 10)])"

declare str_nat.simps [simp del]

definition str_int :: "int \<Rightarrow> string" where
  "str_int i = (if i < 0 then CHR ''-'' # str_nat (nat (- i)) else str_nat (nat i))"

fun join :: "string \<Rightarrow> string list \<Rightarrow> string" where
  "join sep [] = []"
| "join sep [x] = x"
| "join sep (x # y # ys) = x @ sep @ join sep (y # ys)"

definition rstrip :: "string \<Rightarrow> string \<Rightarrow> string" where
  "rstrip chars s = rev (dropWhile (\<lambda>c. c \<in> set chars) (rev s))"

definition ascii_upper_char :: "char \<Rightarrow> char" where
  "ascii_upper_char c =
     (if CHR ''a'' \<le> c \<and> c \<le> CHR ''z'' then char_of (of_char c - (32::nat)) else c)"

definition ascii_upper :: "string \<Rightarrow> string" where
  "ascii_upper s = map ascii_upper_char s"

definition newline :: string where
  "newline = [CHR 0x0A]"

definition dquote :: string where
  "dquote = [CHR 0x22]"

section \<open>Configuration\<close>

definition API_BASE_URI :: string where
  "API_BASE_URI = ''https://api.datto.com/v1/bcdr/device''"

definition CHECKIN_LIMIT :: int where
  "CHECKIN_LIMIT = 60 * 20"

definition STORAGE_PCT_THRESHOLD :: int where
  "STORAGE_PCT_THRESHOLD = 95"

definition LAST_BACKUP_THRESHOLD :: int where
  "LAST_BACKUP_THRESHOLD = 60 * 60 * 12"

definition LAST_OFFSITE_THRESHOLD :: int where
  "LAST_OFFSITE_THRESHOLD = 60 * 60 * 72"

definition LAST_SCREENSHOT_THRESHOLD :: int where
  "LAST_SCREENSHOT_THRESHOLD = 60 * 60 * 48"

section \<open>Data model\<close>

text \<open>
  The JSON objects of the API, with the fields the script reads. A timestamp is a number
  of seconds since the epoch; a field the API may leave \<^verbatim>\<open>null\<close> is an option.
\<close>

record device =
  name :: string
  hidden :: bool
  lastSeenDate :: string
  activeTickets :: int
  localStorageAvailable_size :: int
  localStorageUsed_size :: int
  serialNumber :: string

record backup =
  status :: string
  errorMessage :: string

record agent =
  agent_name :: string
  isArchived :: bool
  isPaused :: bool
  lastSnapshot :: int
  backups :: "backup list"
  latestOffsite :: "int option"
  agent_type :: string
  lastScreenshotAttempt :: "int option"
  lastScreenshotAttemptStatus :: "bool option"

record page =
  items :: "device list"
  pagination_totalPages :: int

record email =
  Subject :: string
  From :: string
  To :: string
  body :: string

text \<open>
  One entry of \<^verbatim>\<open>results_data['devices']\<close>: the device's own findings and, for each of
  its assets by name, the asset's findings.
\<close>

record device_result =
  r_errors :: "string list"
  r_assets :: "string \<rightharpoonup> string list"

text \<open>
  What the script reads from outside: the answer of the API to each URL (the listing
  pages and the asset lists), the error message of the connectivity probe if the probe is
  answered by an error envelope, the successive readings of the clock in microseconds
  since the epoch, and the library routines whose behaviour is the platform's:
  \<^item> \<^verbatim>\<open>datetime.strptime\<close> with the format \<^verbatim>\<open>%Y-%m-%dT%H:%M:%S%z\<close> (the instant in
    microseconds since the epoch, or \<open>None\<close> where it raises \<^verbatim>\<open>ValueError\<close>);
  \<^item> \<^verbatim>\<open>str\<close> on a float;
  \<^item> \<^verbatim>\<open>str.upper\<close>;
  \<^item> the exception that \<^verbatim>\<open>datetime.fromtimestamp\<close> raises for a timestamp outside the
    years 1 to 9999 (\<^verbatim>\<open>ValueError\<close>, \<^verbatim>\<open>OverflowError\<close> or \<^verbatim>\<open>OSError\<close>, by magnitude and
    platform);
  \<^item> the exception, if any, that the SMTP transport raises while \<open>email_report\<close> connects
    to the relay, starts TLS and sends. The relay host in the source is the placeholder
    \<^verbatim>\<open><Insert MX Endpoint>\<close>, with which the connection fails; a deployment puts its
    relay there.
  \<open>SEND_EMAIL\<close> is the switch that the script sets to \<^verbatim>\<open>False\<close> and asks the operator to
  set to \<^verbatim>\<open>True\<close> for the mail.
\<close>

record world =
  probe_error :: "string option"
  device_pages :: "string \<Rightarrow> page"
  asset_lists :: "string \<Rightarrow> agent list"
  clock :: "nat \<Rightarrow> int"
  strptime :: "string \<Rightarrow> int option"
  float_str :: "pyfloat \<Rightarrow> string"
  str_upper :: "string \<Rightarrow> string"
  timestamp_error :: "int \<Rightarrow> error"
  smtp_error :: "error option"
  SEND_EMAIL :: bool

text \<open>
  The module-level variables (\<open>MSG_BODY\<close>, \<open>results_data\<close>, \<open>errors\<close>) and the trace of
  what the script did to the outside: lines printed, URLs requested, clock readings taken,
  whether the HTTP session was closed, and messages handed to the mail relay.
\<close>

record state =
  MSG_BODY :: "string list"
  results_data :: "string \<rightharpoonup> device_result"
  errors :: "string list"
  stdout :: "string list"
  requests :: "string list"
  clock_reads :: nat
  session_closed :: bool
  outbox :: "email list"

definition init_state :: state where
  "init_state =
     \<lparr>MSG_BODY = [], results_data = Map.empty, errors = [], stdout = [], requests = [],
      clock_reads = 0, session_closed = False, outbox = []\<rparr>"

definition session_get :: "string \<Rightarrow> state \<Rightarrow> state" where
  "session_get url st = st\<lparr>requests := requests st @ [url]\<rparr>"

definition datetime_now :: "world \<Rightarrow> state \<Rightarrow> int \<times> state" where
  "datetime_now w st = (clock w (clock_reads st), st\<lparr>clock_reads := Suc (clock_reads st)\<rparr>)"

text \<open>
  \<^verbatim>\<open>datetime.fromtimestamp(ts, timezone.utc)\<close> on a whole number of seconds: the instant in
  microseconds, when it lies between 0001-01-01 00:00:00 and 9999-12-31 23:59:59 UTC, and
  an exception otherwise.
\<close>

definition timestamp_ok :: "int \<Rightarrow> bool" where
  "timestamp_ok ts = (- 62135596800 \<le> ts \<and> ts \<le> 253402300799)"

definition fromtimestamp :: "world \<Rightarrow> int \<Rightarrow> error + int" where
  "fromtimestamp w ts =
     (if timestamp_ok ts then Inr (ts * 1000000) else Inl (timestamp_error w ts))"


section \<open>The API client\<close>



text \<open>
  \<^verbatim>\<open>getDevices\<close>: the first page is requested, then one request for each page of
  \<^verbatim>\<open>range(2, totalPages+1)\<close>, each extending the list; the list is sorted by the
  upper-cased name (Python's sort is stable, as \<open>sort_key\<close> is, and compares strings
  character by character, as the order on lists of characters does).
\<close>

definition page_url :: "int \<Rightarrow> string" where
  "page_url page = API_BASE_URI @ ''?_page='' @ str_int page"

fun fetch_pages :: "world \<Rightarrow> int list \<Rightarrow> device list \<times> state \<Rightarrow> device list \<times> state" where
  "fetch_pages w [] acc = acc"
| "fetch_pages w (page # rest) (devices, st) =
     (let st = session_get (page_url page) st;
          r = device_pages w (page_url page)
      in fetch_pages w rest (devices @ items r, st))"

definition getDevices :: "world \<Rightarrow> state \<Rightarrow> device list \<times> state" where
  "getDevices w st =
     (let st = session_get (API_BASE_URI @ ''?_page=1'') st;
          r = device_pages w (API_BASE_URI @ ''?_page=1'');
          devices = [] @ items r;
          totalPages = pagination_totalPages r;
          (devices, st) =
            (if totalPages > 1 then fetch_pages w [2..totalPages] (devices, st)
             else (devices, st))
      in (sort_key (\<lambda>i. str_upper w (name i)) devices, st))"

definition getAssetDetails :: "world \<Rightarrow> string \<Rightarrow> state \<Rightarrow> agent list \<times> state" where
  "getAssetDetails w serial st =
     (let url = API_BASE_URI @ ''/'' @ serial @ ''/asset''
      in (asset_lists w url, session_get url st))"

section \<open>Report helpers\<close>

definition printErrors :: "string list \<Rightarrow> string \<Rightarrow> state \<Rightarrow> state" where
  "printErrors errs device_name st =
     st\<lparr>stdout := stdout st @ [''--DEVICE: '' @ device_name] @ errs,
        MSG_BODY := MSG_BODY st @ [''--DEVICE: '' @ device_name] @ errs @ [newline]\<rparr>"

definition intervals :: "(string \<times> int) list" where
  "intervals =
     [(''weeks'', 604800), (''days'', 86400), (''hours'', 3600), (''minutes'', 60),
      (''seconds'', 1)]"

fun display_loop :: "(string \<times> int) list \<Rightarrow> int \<Rightarrow> string list \<Rightarrow> string list" where
  "display_loop [] seconds result = result"
| "display_loop ((unit_name, cnt) # rest) seconds result =
     (let v = seconds div cnt
      in if v \<noteq> 0 then
           display_loop rest (seconds - v * cnt)
             (result @ [str_int v @ '' '' @ (if v = 1 then rstrip ''s'' unit_name else unit_name)])
         else display_loop rest seconds result)"

definition display_time :: "rat \<Rightarrow> nat \<Rightarrow> string" where
  "display_time seconds granularity =
     join '', '' (take granularity (display_loop intervals (py_int seconds) []))"


subsection \<open>The texts of the findings\<close>

definition ticket_msg :: "int \<Rightarrow> string" where
  "ticket_msg n =
     '' [-]   Appliance has '' @ str_int n @ '' active '' @ (if n < 2 then ''ticket'' else ''tickets'')"

definition checkin_msg :: "rat \<Rightarrow> string" where
  "checkin_msg secs = '' [!] CRITICAL -  Last checkin was '' @ display_time secs 2 @ '' ago!''"

definition storage_msg :: "world \<Rightarrow> pyfloat \<Rightarrow> string" where
  "storage_msg w pct =
     '' [!]   Local storage exceeds '' @ str_int STORAGE_PCT_THRESHOLD
       @ ''%!  Current Usage: '' @ float_str w pct @ ''%''"

definition backup_failed_msg :: "string \<Rightarrow> rat \<Rightarrow> string \<Rightarrow> string" where
  "backup_failed_msg n secs msg =
     '' [!]   '' @ n @ '': Last scheduled backup failed; last backup was '' @ display_time secs 2
       @ '' ago'' @ newline @ ''       -->  '' @ dquote @ msg @ dquote"

definition no_backups_msg :: "string \<Rightarrow> string" where
  "no_backups_msg n = '' [-]   '' @ n @ '': does not seem to have any backups!''"

definition no_offsite_msg :: "string \<Rightarrow> string" where
  "no_offsite_msg n = '' [-]   '' @ n @ '': no off-site backup points''"

definition stale_offsite_msg :: "string \<Rightarrow> rat \<Rightarrow> string" where
  "stale_offsite_msg n secs = '' [!]   '' @ n @ '': Last off-site was '' @ display_time secs 2 @ '' ago''"

definition stale_screenshot_msg :: "string \<Rightarrow> rat \<Rightarrow> string" where
  "stale_screenshot_msg n secs =
     '' [!]   '' @ n @ '': Last screenshot attempt was '' @ display_time secs 2 @ '' ago!''"

definition failed_screenshot_msg :: "string \<Rightarrow> string" where
  "failed_screenshot_msg n = '' [-]   '' @ n @ '': Last screenshot attempt failed!''"

subsection \<open>Recording a finding\<close>

text \<open>
  A device-level finding is appended to \<open>errors\<close> and to the device's list in
  \<open>results_data\<close>; an asset-level finding to \<open>errors\<close> and to the asset's list. The entries
  written to are created at the start of the device's, respectively the asset's,
  evaluation, so the lookups of the script cannot miss; the updates below leave a missing
  entry alone.
\<close>

definition device_result_append :: "string \<Rightarrow> string \<Rightarrow> state \<Rightarrow> state" where
  "device_result_append dn msg st =
     st\<lparr>results_data :=
          (case results_data st dn of
             None \<Rightarrow> results_data st
           | Some r \<Rightarrow> (results_data st)(dn \<mapsto> r\<lparr>r_errors := r_errors r @ [msg]\<rparr>))\<rparr>"

definition asset_result_set :: "string \<Rightarrow> string \<Rightarrow> string list \<Rightarrow> state \<Rightarrow> state" where
  "asset_result_set dn an v st =
     st\<lparr>results_data :=
          (case results_data st dn of
             None \<Rightarrow> results_data st
           | Some r \<Rightarrow> (results_data st)(dn \<mapsto> r\<lparr>r_assets := (r_assets r)(an \<mapsto> v)\<rparr>))\<rparr>"

definition asset_result_append :: "string \<Rightarrow> string \<Rightarrow> string \<Rightarrow> state \<Rightarrow> state" where
  "asset_result_append dn an msg st =
     st\<lparr>results_data :=
          (case results_data st dn of
             None \<Rightarrow> results_data st
           | Some r \<Rightarrow>
               (case r_assets r an of
                  None \<Rightarrow> results_data st
                | Some l \<Rightarrow> (results_data st)(dn \<mapsto> r\<lparr>r_assets := (r_assets r)(an \<mapsto> l @ [msg])\<rparr>)))\<rparr>"

definition errors_append :: "string \<Rightarrow> state \<Rightarrow> state" where
  "errors_append msg st = st\<lparr>errors := errors st @ [msg]\<rparr>"

definition device_finding :: "device \<Rightarrow> string \<Rightarrow> state \<Rightarrow> state" where
  "device_finding d msg st = device_result_append (name d) msg (errors_append msg st)"

definition asset_finding :: "device \<Rightarrow> agent \<Rightarrow> string \<Rightarrow> state \<Rightarrow> state" where
  "asset_finding d a msg st =
     asset_result_append (name d) (agent_name a) msg (errors_append msg st)"


section \<open>The threshold evaluator\<close>

text \<open>
  \<open>truthy\<close> is Python's truth value of a field that holds a number or \<^verbatim>\<open>None\<close>.
\<close>

fun truthy :: "int option \<Rightarrow> bool" where
  "truthy None = False"
| "truthy (Some n) = (n \<noteq> 0)"

text \<open>
  The local-storage percentage, the script's \<open>available_pct\<close>:
  \<^verbatim>\<open>float("{0:.2f}".format(storage_used / total_space)) * 100\<close>.
\<close>

definition storage_pct :: "int \<Rightarrow> int \<Rightarrow> error + pyfloat" where
  "storage_pct storage_used total_space =
     (case int_truediv storage_used total_space of
        Inl e \<Rightarrow> Inl e
      | Inr q \<Rightarrow> Inr (float_mul (float_of_decimal (format_2f q)) 100))"

subsection \<open>One asset\<close>

text \<open>
  The body of the \<^verbatim>\<open>try\<close>: reading \<^verbatim>\<open>agent['backups'][0]\<close> raises \<^verbatim>\<open>IndexError\<close> on
  an empty history.
\<close>

definition backup_check :: "device \<Rightarrow> agent \<Rightarrow> rat \<Rightarrow> state \<Rightarrow> error + state" where
  "backup_check d a secs st =
     (case backups a of
        [] \<Rightarrow> Inl IndexError
      | b # _ \<Rightarrow>
          if status b \<noteq> ''success'' then
            Inr (asset_finding d a (backup_failed_msg (agent_name a) secs (errorMessage b)) st)
          else Inr st)"

definition offsite_check :: "world \<Rightarrow> device \<Rightarrow> agent \<Rightarrow> int \<Rightarrow> state \<Rightarrow> error + state" where
  "offsite_check w d a now st =
     (if \<not> truthy (latestOffsite a) then
        Inr (asset_finding d a (no_offsite_msg (agent_name a)) st)
      else case latestOffsite a of
             None \<Rightarrow> Inr st
           | Some ts \<Rightarrow>
              (case fromtimestamp w ts of
                 Inl e \<Rightarrow> Inl e
               | Inr lastOffsite \<Rightarrow>
                   let timeDiff = now - lastOffsite
                   in if of_int LAST_OFFSITE_THRESHOLD < total_seconds timeDiff then
                        Inr (asset_finding d a
                               (stale_offsite_msg (agent_name a) (total_seconds timeDiff)) st)
                      else Inr st))"

definition screenshot_time_check ::
  "world \<Rightarrow> device \<Rightarrow> agent \<Rightarrow> int \<Rightarrow> state \<Rightarrow> error + state" where
  "screenshot_time_check w d a now st =
     (if agent_type a = ''agent'' \<and> truthy (lastScreenshotAttempt a) then
        case lastScreenshotAttempt a of
          None \<Rightarrow> Inr st
        | Some ts \<Rightarrow>
           (case fromtimestamp w ts of
              Inl e \<Rightarrow> Inl e
            | Inr last_screenshot \<Rightarrow>
                let timeDiff = now - last_screenshot
                in if of_int LAST_SCREENSHOT_THRESHOLD < total_seconds timeDiff then
                     Inr (asset_finding d a
                            (stale_screenshot_msg (agent_name a) (total_seconds timeDiff)) st)
                   else Inr st)
      else Inr st)"

definition screenshot_status_check :: "device \<Rightarrow> agent \<Rightarrow> state \<Rightarrow> state" where
  "screenshot_status_check d a st =
     (if agent_type a = ''agent'' \<and> lastScreenshotAttemptStatus a = Some False then
        asset_finding d a (failed_screenshot_msg (agent_name a)) st
      else st)"

text \<open>
  The body of \<^verbatim>\<open>for agent in assetDetails\<close>. The three conversions of a timestamp are
  outside the \<^verbatim>\<open>try\<close>, so their exceptions leave the loop and end the run.
\<close>

definition check_agent :: "world \<Rightarrow> device \<Rightarrow> agent \<Rightarrow> state \<Rightarrow> error + state" where
  "check_agent w d a st =
     (if isArchived a then Inr st
      else if isPaused a then Inr st
      else
        let st = asset_result_set (name d) (agent_name a) [] st
        in case fromtimestamp w (lastSnapshot a) of
             Inl e \<Rightarrow> Inl e
           | Inr lastBackupTime \<Rightarrow>
              (let (now, st) = datetime_now w st;
                   timeDiff = now - lastBackupTime
               in case (if of_int LAST_BACKUP_THRESHOLD < total_seconds timeDiff then
                          (case backup_check d a (total_seconds timeDiff) st of
                             Inl IndexError \<Rightarrow>
                               Inr (asset_finding d a (no_backups_msg (agent_name a)) st)
                           | Inl e \<Rightarrow> Inl e
                           | Inr st' \<Rightarrow> Inr st')
                        else Inr st) of
                    Inl e \<Rightarrow> Inl e
                  | Inr st \<Rightarrow>
                     (case offsite_check w d a now st of
                        Inl e \<Rightarrow> Inl e
                      | Inr st \<Rightarrow>
                         (case screenshot_time_check w d a now st of
                            Inl e \<Rightarrow> Inl e
                          | Inr st \<Rightarrow> Inr (screenshot_status_check d a st)))))"

fun agent_loop :: "world \<Rightarrow> device \<Rightarrow> agent list \<Rightarrow> state \<Rightarrow> error + state" where
  "agent_loop w d [] st = Inr st"
| "agent_loop w d (a # rest) st =
     (case check_agent w d a st of
        Inl e \<Rightarrow> Inl e
      | Inr st' \<Rightarrow> agent_loop w d rest st')"

subsection \<open>One device\<close>

text \<open>
  The body of \<^verbatim>\<open>for device in devices\<close>. The closing test on \<^verbatim>\<open>'GLOVER'\<close> assigns a
  local that nothing reads and is left out.
\<close>

definition device_iteration :: "world \<Rightarrow> device \<Rightarrow> state \<Rightarrow> error + state" where
  "device_iteration w d st =
     (if hidden d then Inr st
      else
        let st = st\<lparr>results_data :=
                     (results_data st)(name d \<mapsto> \<lparr>r_errors = [], r_assets = Map.empty\<rparr>),
                   errors := []\<rparr>;
            t = take 22 (lastSeenDate d) @ drop 23 (lastSeenDate d)
        in case strptime w t of
             None \<Rightarrow> Inl ValueError
           | Some device_checkin \<Rightarrow>
              (let (now, st) = datetime_now w st;
                   timeDiff = now - device_checkin;
                   st = (if activeTickets d \<noteq> 0 then
                           device_finding d (ticket_msg (activeTickets d)) st
                         else st)
               in if of_int CHECKIN_LIMIT \<le> total_seconds timeDiff then
                    let st = device_finding d (checkin_msg (total_seconds timeDiff)) st
                    in Inr (printErrors (errors st) (name d) st)
                  else
                    let storage_available = localStorageAvailable_size d;
                        storage_used = localStorageUsed_size d;
                        total_space = storage_available + storage_used
                    in (case storage_pct storage_used total_space of
                          Inl e \<Rightarrow> Inl e
                        | Inr available_pct \<Rightarrow>
                           (let st = (if float_gt_int available_pct STORAGE_PCT_THRESHOLD then
                                        device_finding d (storage_msg w available_pct) st
                                      else st);
                                (assetDetails, st) = getAssetDetails w (serialNumber d) st
                            in (case agent_loop w d assetDetails st of
                                  Inl e \<Rightarrow> Inl e
                                | Inr st \<Rightarrow>
                                    Inr (if errors st \<noteq> [] then printErrors (errors st) (name d) st
                                         else st))))))"


section \<open>The script\<close>



section \<open>The specification's formulas\<close>

text \<open>
  The elapsed-time rendering as the specification words it: the amounts of weeks, days,
  hours, minutes and seconds in a number of seconds, the two largest units whose amount is
  not zero, each written with its unit in the singular when the amount is 1.
\<close>

definition unit_amounts :: "int \<Rightarrow> (int \<times> string) list" where
  "unit_amounts s =
     [(s div 604800, ''week''),
      (s mod 604800 div 86400, ''day''),
      (s mod 86400 div 3600, ''hour''),
      (s mod 3600 div 60, ''minute''),
      (s mod 60, ''second'')]"

definition render_unit :: "int \<times> string \<Rightarrow> string" where
  "render_unit p = str_int (fst p) @ '' '' @ (if fst p = 1 then snd p else snd p @ ''s'')"

definition spec_display_time :: "int \<Rightarrow> string" where
  "spec_display_time s =
     join '', '' (map render_unit (take 2 (filter (\<lambda>p. fst p \<noteq> 0) (unit_amounts s))))"



section \<open>Observations\<close>

text \<open>
  The findings that the evaluation of one asset adds to \<open>errors\<close>, or the exception that
  escapes from it.
\<close>

definition agent_findings :: "world \<Rightarrow> device \<Rightarrow> agent \<Rightarrow> state \<Rightarrow> error + string list" where
  "agent_findings w d a st =
     (case check_agent w d a st of
        Inl e \<Rightarrow> Inl e
      | Inr st' \<Rightarrow> Inr (drop (length (errors st)) (errors st')))"

text \<open>
  The timestamps that the evaluation of an asset converts: the last snapshot, the last
  off-site point when it is not 0, and for an agent the last screenshot attempt when it
  is not 0. The evaluation raises when one of them is outside the range of the library.
\<close>

definition timestamps_ok :: "agent \<Rightarrow> bool" where
  "timestamps_ok a =
     (timestamp_ok (lastSnapshot a)
      \<and> (case latestOffsite a of None \<Rightarrow> True | Some ts \<Rightarrow> timestamp_ok ts)
      \<and> (case lastScreenshotAttempt a of
            None \<Rightarrow> True
          | Some ts \<Rightarrow> agent_type a = ''agent'' \<longrightarrow> timestamp_ok ts))"

text \<open>
  The evaluator as a function of the asset and the clock reading, check by check: the
  list that each block of the loop body appends when the timestamps are in range.
\<close>

definition backup_findings :: "agent \<Rightarrow> int \<Rightarrow> string list" where
  "backup_findings a now =
     (let secs = total_seconds (now - lastSnapshot a * 1000000)
      in if of_int LAST_BACKUP_THRESHOLD < secs then
           (case backups a of
              [] \<Rightarrow> [no_backups_msg (agent_name a)]
            | b # _ \<Rightarrow>
                if status b \<noteq> ''success'' then
                  [backup_failed_msg (agent_name a) secs (errorMessage b)]
                else [])
         else [])"

definition offsite_findings :: "agent \<Rightarrow> int \<Rightarrow> string list" where
  "offsite_findings a now =
     (case latestOffsite a of
        None \<Rightarrow> [no_offsite_msg (agent_name a)]
      | Some ts \<Rightarrow>
          if ts = 0 then [no_offsite_msg (agent_name a)]
          else if of_int LAST_OFFSITE_THRESHOLD < total_seconds (now - ts * 1000000) then
            [stale_offsite_msg (agent_name a) (total_seconds (now - ts * 1000000))]
          else [])"

definition screenshot_time_findings :: "agent \<Rightarrow> int \<Rightarrow> string list" where
  "screenshot_time_findings a now =
     (case lastScreenshotAttempt a of
        None \<Rightarrow> []
      | Some ts \<Rightarrow>
          if agent_type a = ''agent'' \<and> ts \<noteq> 0
             \<and> of_int LAST_SCREENSHOT_THRESHOLD < total_seconds (now - ts * 1000000)
          then [stale_screenshot_msg (agent_name a) (total_seconds (now - ts * 1000000))]
          else [])"

definition screenshot_status_findings :: "agent \<Rightarrow> string list" where
  "screenshot_status_findings a =
     (if agent_type a = ''agent'' \<and> lastScreenshotAttemptStatus a = Some False then
        [failed_screenshot_msg (agent_name a)]
      else [])"

text \<open>Recording a list of findings of an asset, one after the other.\<close>

definition record_asset_findings :: "device \<Rightarrow> agent \<Rightarrow> string list \<Rightarrow> state \<Rightarrow> state" where
  "record_asset_findings d a fs st = foldl (\<lambda>s msg. asset_finding d a msg s) st fs"

text \<open>
  The part of the state that belongs to the device level: the report buffer, the printed
  lines, the requests made, the mails sent, and each device's own findings in
  \<open>results_data\<close>.
\<close>

definition device_level ::
  "state \<Rightarrow> string list \<times> string list \<times> string list \<times> email list
     \<times> (string \<Rightarrow> string list option)" where
  "device_level st =
     (MSG_BODY st, stdout st, requests st, outbox st,
      \<lambda>dn. map_option r_errors (results_data st dn))"

text \<open>
  The state of the iteration of a visible, online device whose storage percentage is
  \<open>pct\<close>, at the point where its assets have been requested and the loop over them starts.
\<close>

definition before_assets :: "world \<Rightarrow> device \<Rightarrow> pyfloat \<Rightarrow> state \<Rightarrow> state" where
  "before_assets w d pct st =
     (let s0 = st\<lparr>results_data :=
                     (results_data st)(name d \<mapsto> \<lparr>r_errors = [], r_assets = Map.empty\<rparr>),
                   errors := [], clock_reads := Suc (clock_reads st)\<rparr>;
          s1 = (if activeTickets d \<noteq> 0
                then device_finding d (ticket_msg (activeTickets d)) s0 else s0);
          s2 = (if float_gt_int pct STORAGE_PCT_THRESHOLD
                then device_finding d (storage_msg w pct) s1 else s1)
      in session_get (API_BASE_URI @ ''/'' @ serialNumber d @ ''/asset'') s2)"


text \<open>A critical finding is one that carries the tag of the check-in message.\<close>

definition is_critical :: "string \<Rightarrow> bool" where
  "is_critical s = (take 13 s = '' [!] CRITICAL'')"



section \<open>Example inputs\<close>

text \<open>
  A world for the examples. Its clock starts one minute after 2023-11-14 22:13:20 UTC
  (1700000000 seconds after the epoch) and advances by a minute at each reading; its
  \<open>strptime\<close> knows the two dates that the example devices report; its \<open>float_str\<close> is
  Python's \<^verbatim>\<open>str\<close> on floats without a fractional part and on the infinities; its
  \<open>str_upper\<close> is \<open>ascii_upper\<close> (the example names are ASCII); a timestamp out of range
  raises \<^verbatim>\<open>ValueError\<close>, as CPython does while the C library can still convert the number
  (the examples stay far below that limit); and its mail relay accepts every message.
\<close>

definition example_strptime :: "string \<Rightarrow> int option" where
  "example_strptime s =
     (if s = ''2023-11-14T22:13:20+0000'' then Some 1700000000000000
      else if s = ''2023-11-14T21:13:20+0000'' then Some 1699996400000000
      else None)"

fun example_float_str :: "pyfloat \<Rightarrow> string" where
  "example_float_str (Finite r) = str_int \<lfloor>r\<rfloor> @ ''.0''"
| "example_float_str PosInf = ''inf''"
| "example_float_str NegInf = ''-inf''"

definition example_world :: "device list \<Rightarrow> agent list \<Rightarrow> bool \<Rightarrow> world" where
  "example_world ds as send =
     \<lparr>probe_error = None,
      device_pages = (\<lambda>url. \<lparr>items = (if url = page_url 1 then ds else []),
                              pagination_totalPages = 1\<rparr>),
      asset_lists = (\<lambda>url. as),
      clock = (\<lambda>n. 1700000000000000 + 60000000 * (1 + int n)),
      strptime = example_strptime,
      float_str = example_float_str,
      str_upper = ascii_upper,
      timestamp_error = (\<lambda>ts. ValueError),
      smtp_error = None,
      SEND_EMAIL = send\<rparr>"

definition example_paged_world :: world where
  "example_paged_world =
     (example_world [] [] False)
       \<lparr>device_pages :=
          (\<lambda>url. \<lparr>items =
                    (if url = page_url 1 then
                       [\<lparr>name = ''Beta'', hidden = False, lastSeenDate = [], activeTickets = 0,
                         localStorageAvailable_size = 1, localStorageUsed_size = 1,
                         serialNumber = ''B''\<rparr>,
                        \<lparr>name = ''gamma'', hidden = False, lastSeenDate = [], activeTickets = 0,
                         localStorageAvailable_size = 1, localStorageUsed_size = 1,
                         serialNumber = ''C''\<rparr>]
                     else if url = page_url 2 then
                       [\<lparr>name = ''alpha'', hidden = False, lastSeenDate = [], activeTickets = 0,
                         localStorageAvailable_size = 1, localStorageUsed_size = 1,
                         serialNumber = ''A''\<rparr>]
                     else []),
                  pagination_totalPages = 2\<rparr>)\<rparr>"

definition example_device :: "string \<Rightarrow> bool \<Rightarrow> string \<Rightarrow> int \<Rightarrow> int \<Rightarrow> device" where
  "example_device n h seen used available =
     \<lparr>name = n, hidden = h, lastSeenDate = seen, activeTickets = 0,
      localStorageAvailable_size = available, localStorageUsed_size = used,
      serialNumber = ''SN-'' @ n\<rparr>"

definition example_agent :: "string \<Rightarrow> string \<Rightarrow> int \<Rightarrow> int option \<Rightarrow> int option \<Rightarrow> agent" where
  "example_agent n ty snapshot offsite screenshot =
     \<lparr>agent_name = n, isArchived = False, isPaused = False, lastSnapshot = snapshot,
      backups = [], latestOffsite = offsite, agent_type = ty,
      lastScreenshotAttempt = screenshot, lastScreenshotAttemptStatus = None\<rparr>"

section \<open>Properties of the floating-point rounding\<close>

lemma bitlen_powi_bounds:
  assumes "0 < p"
  shows "(2::rat) powi (bitlen p - 1) \<le> of_int p" and "of_int p < (2::rat) powi bitlen p"
proof -
  have b1: "1 \<le> bitlen p" using assms by (simp add: bitlen_alt_def)
  have lo: "2 ^ nat (bitlen p - 1) \<le> p" and hi: "p < 2 ^ nat (bitlen p)"
    using bitlen_bounds [OF assms] by auto
  have "(of_int (2 ^ nat (bitlen p - 1)) :: rat) \<le> of_int p"
    using lo by (simp only: of_int_le_iff)
  then show "(2::rat) powi (bitlen p - 1) \<le> of_int p"
    using b1 by (simp add: power_int_def)
  have "(of_int p :: rat) < of_int (2 ^ nat (bitlen p))"
    using hi by (simp only: of_int_less_iff)
  then show "of_int p < (2::rat) powi bitlen p"
    using b1 by (simp add: power_int_def)
qed

lemma floor_log2_bounds:
  assumes "0 < a"
  shows "2 powi floor_log2 a \<le> a" and "a < 2 powi (floor_log2 a + 1)"
proof -
  obtain p q where pq: "quotient_of a = (p, q)" by (cases "quotient_of a")
  have q0: "0 < q" using pq by (rule quotient_of_denom_pos)
  have a: "a = of_int p / of_int q" using pq by (rule quotient_of_div)
  have p0: "0 < p" using assms q0 a by (simp add: zero_less_divide_iff)
  define d where "d = bitlen p - bitlen q"
  note P = bitlen_powi_bounds [OF p0] and Q = bitlen_powi_bounds [OF q0]
  have qr: "(0::rat) < of_int q" using q0 by simp
  have up: "a < 2 powi (d + 1)"
  proof -
    have "of_int p < (2::rat) powi (d + 1) * 2 powi (bitlen q - 1)"
      using P(2) by (simp add: d_def flip: power_int_add)
    also have "\<dots> \<le> 2 powi (d + 1) * of_int q"
      using Q(1) by (simp add: mult_left_mono)
    finally show ?thesis using qr by (simp add: a pos_divide_less_eq)
  qed
  have low: "2 powi (d - 1) \<le> a"
  proof -
    have "(2::rat) powi (d - 1) * of_int q \<le> 2 powi (d - 1) * 2 powi bitlen q"
      using Q(2) by (simp add: mult_left_mono)
    also have "\<dots> = 2 powi (bitlen p - 1)"
      by (simp add: d_def flip: power_int_add)
    also have "\<dots> \<le> of_int p" by (rule P(1))
    finally show ?thesis using qr by (simp add: a pos_le_divide_eq)
  qed
  have fl: "floor_log2 a = (if 2 powi d \<le> a then d else d - 1)"
    by (simp add: floor_log2_def pq d_def Let_def)
  show "2 powi floor_log2 a \<le> a" using low by (simp add: fl)
  show "a < 2 powi (floor_log2 a + 1)" using up by (auto simp add: fl)
qed


lemma round_half_even_of_int: "round_half_even (of_int n) = n"
  by (simp add: round_half_even_def)

lemma round_half_even_floor: "\<lfloor>x\<rfloor> \<le> round_half_even x" "round_half_even x \<le> \<lfloor>x\<rfloor> + 1"
  by (auto simp add: round_half_even_def Let_def)

lemma round_half_even_mono:
  assumes "x \<le> y"
  shows "round_half_even x \<le> round_half_even y"
proof (cases "\<lfloor>x\<rfloor> = \<lfloor>y\<rfloor>")
  case True
  then have "x - of_int \<lfloor>x\<rfloor> \<le> y - of_int \<lfloor>y\<rfloor>" using assms by simp
  then show ?thesis using True by (auto simp add: round_half_even_def Let_def)
next
  case False
  then have "\<lfloor>x\<rfloor> + 1 \<le> \<lfloor>y\<rfloor>" using floor_mono [OF assms] by linarith
  then show ?thesis
    using round_half_even_floor(2) [of x] round_half_even_floor(1) [of y] by linarith
qed

lemma round_half_even_le: "x \<le> of_int n \<Longrightarrow> round_half_even x \<le> n"
  using round_half_even_mono [of x "of_int n"] by (simp add: round_half_even_of_int)

lemma round_half_even_ge: "of_int n \<le> x \<Longrightarrow> n \<le> round_half_even x"
  using round_half_even_mono [of "of_int n" x] by (simp add: round_half_even_of_int)

lemma to_double_pos:
  "0 < x \<Longrightarrow> to_double x =
     of_int (round_half_even (x / 2 powi (binade x - 52))) * 2 powi (binade x - 52)"
  by (simp add: to_double_def binade_def Let_def)

lemma to_double_minus: "to_double (- x) = - to_double x"
  by (simp add: to_double_def Let_def)

lemma to_double_nonneg: "0 \<le> x \<Longrightarrow> 0 \<le> to_double x"
proof (cases "x = 0")
  case True then show ?thesis by (simp add: to_double_def)
next
  case False
  assume "0 \<le> x"
  with False have x: "0 < x" by simp
  have "(of_int 0 :: rat) \<le> x / 2 powi (binade x - 52)" using x by simp
  then have "0 \<le> round_half_even (x / 2 powi (binade x - 52))"
    by (rule round_half_even_ge)
  then show ?thesis using x by (simp add: to_double_pos)
qed

lemma floor_log2_mono:
  assumes "0 < x" "x \<le> y"
  shows "floor_log2 x \<le> floor_log2 y"
proof -
  have "(2::rat) powi floor_log2 x \<le> x" using assms(1) by (rule floor_log2_bounds)
  also have "x \<le> y" by fact
  also have "y < 2 powi (floor_log2 y + 1)" using assms by (intro floor_log2_bounds) simp
  finally have *: "(2::rat) powi floor_log2 x < 2 powi (floor_log2 y + 1)" .
  have "floor_log2 x < floor_log2 y + 1"
  proof (rule ccontr)
    assume "\<not> floor_log2 x < floor_log2 y + 1"
    then have "(2::rat) powi (floor_log2 y + 1) \<le> 2 powi floor_log2 x"
      by (intro power_int_increasing) simp_all
    with * show False by simp
  qed
  then show ?thesis by simp
qed

lemma binade_mono: "0 < x \<Longrightarrow> x \<le> y \<Longrightarrow> binade x \<le> binade y"
  using floor_log2_mono [of x y] by (simp add: binade_def)

lemma to_double_upper:
  assumes "0 < x"
  shows "to_double x \<le> 2 powi (binade x + 1)"
proof -
  let ?u = "(2::rat) powi (binade x - 52)"
  have u: "0 < ?u" by simp
  have "x < 2 powi (floor_log2 x + 1)" using assms by (rule floor_log2_bounds)
  also have "\<dots> \<le> 2 powi (binade x + 1)"
    using assms by (intro power_int_increasing) (simp_all add: binade_def)
  also have "\<dots> = of_int (2 ^ 53) * ?u"
    by (simp add: power_int_diff power_int_add)
  finally have "x / ?u \<le> of_int (2 ^ 53)" using u by (simp add: pos_divide_le_eq)
  then have "round_half_even (x / ?u) \<le> 2 ^ 53" by (rule round_half_even_le)
  then have "(of_int (round_half_even (x / ?u)) :: rat) \<le> of_int (2 ^ 53)"
    by (simp only: of_int_le_iff)
  then have "of_int (round_half_even (x / ?u)) * ?u \<le> of_int (2 ^ 53) * ?u"
    using u by (simp only: mult_le_cancel_right_pos)
  also have "\<dots> = 2 powi (binade x + 1)"
    by (simp add: power_int_diff power_int_add)
  finally show ?thesis using assms by (simp add: to_double_pos)
qed

lemma to_double_lower:
  assumes "0 < x" "binade x = floor_log2 x"
  shows "2 powi binade x \<le> to_double x"
proof -
  let ?u = "(2::rat) powi (binade x - 52)"
  have u: "0 < ?u" by simp
  have "of_int (2 ^ 52) * ?u = 2 powi binade x"
    by (simp add: power_int_diff)
  also have "\<dots> \<le> x" using assms floor_log2_bounds(1) [of x] by simp
  finally have "of_int (2 ^ 52) \<le> x / ?u" using u by (simp add: pos_le_divide_eq)
  then have "2 ^ 52 \<le> round_half_even (x / ?u)" by (rule round_half_even_ge)
  then have "(of_int (2 ^ 52) :: rat) \<le> of_int (round_half_even (x / ?u))"
    by (simp only: of_int_le_iff)
  then have "of_int (2 ^ 52) * ?u \<le> of_int (round_half_even (x / ?u)) * ?u"
    using u by (simp only: mult_le_cancel_right_pos)
  also have "\<dots> = to_double x" by (simp only: to_double_pos [OF assms(1)])
  finally have "of_int (2 ^ 52) * ?u \<le> to_double x" .
  moreover have "of_int (2 ^ 52) * ?u = 2 powi binade x"
    by (simp add: power_int_diff)
  ultimately show ?thesis by (simp only:)
qed

lemma to_double_mono_pos:
  assumes "0 < x" "x \<le> y"
  shows "to_double x \<le> to_double y"
proof (cases "binade x = binade y")
  case True
  let ?u = "(2::rat) powi (binade y - 52)"
  have u: "0 < ?u" by simp
  have "x / ?u \<le> y / ?u" using assms u by (simp add: divide_right_mono)
  then have "round_half_even (x / ?u) \<le> round_half_even (y / ?u)"
    by (rule round_half_even_mono)
  then have "(of_int (round_half_even (x / ?u)) :: rat) * ?u \<le> of_int (round_half_even (y / ?u)) * ?u"
    using u by (simp only: mult_le_cancel_right_pos of_int_le_iff)
  then show ?thesis using assms True by (simp add: to_double_pos)
next
  case False
  have y: "0 < y" using assms by simp
  have lt: "binade x < binade y" using False binade_mono [OF assms] by simp
  then have bfl: "binade y = floor_log2 y" using y by (simp add: binade_def max_def split: if_splits)
  have "to_double x \<le> 2 powi (binade x + 1)" using assms(1) by (rule to_double_upper)
  also have "\<dots> \<le> 2 powi binade y" using lt by (intro power_int_increasing) simp_all
  also have "\<dots> \<le> to_double y" using y bfl by (rule to_double_lower)
  finally show ?thesis .
qed

lemma to_double_mono:
  assumes "x \<le> y"
  shows "to_double x \<le> to_double y"
proof -
  consider "0 < x" | "x \<le> 0" "0 \<le> y" | "y < 0" by linarith
  then show ?thesis
  proof cases
    case 1 then show ?thesis using assms by (rule to_double_mono_pos)
  next
    case 2
    have "to_double x \<le> 0" using to_double_nonneg [of "- x"] 2 by (simp add: to_double_minus)
    also have "0 \<le> to_double y" using 2 by (intro to_double_nonneg)
    finally show ?thesis .
  next
    case 3
    have "to_double (- y) \<le> to_double (- x)" using 3 assms by (intro to_double_mono_pos) simp_all
    then show ?thesis by (simp add: to_double_minus)
  qed
qed



section \<open>The elapsed-time formatter\<close>

lemma display_loop_step:
  "display_loop ((n, c) # rest) s res =
     display_loop rest (s mod c)
       (res @ (if s div c \<noteq> 0
               then [str_int (s div c) @ '' '' @ (if s div c = 1 then rstrip ''s'' n else n)]
               else []))"
proof (cases "s div c = 0")
  case True
  then have "s mod c = s" using div_mult_mod_eq [of s c] by simp
  with True show ?thesis by simp
next
  case False
  have "s - s div c * c = s mod c" by (simp add: minus_div_mult_eq_mod)
  with False show ?thesis by (simp add: Let_def)
qed

lemma map_filter_Cons:
  "map f (filter P (x # xs)) = (if P x then [f x] else []) @ map f (filter P xs)"
  by simp

lemma rstrip_units:
  "rstrip ''s'' ''weeks'' = ''week''" "rstrip ''s'' ''days'' = ''day''"
  "rstrip ''s'' ''hours'' = ''hour''" "rstrip ''s'' ''minutes'' = ''minute''"
  "rstrip ''s'' ''seconds'' = ''second''"
  by (simp_all add: rstrip_def)


lemma display_loop_intervals:
  "display_loop intervals s [] = map render_unit (filter (\<lambda>p. fst p \<noteq> 0) (unit_amounts s))"
proof -
  have m1: "s mod 604800 mod 86400 = s mod 86400" by (rule mod_mod_cancel) simp
  have m2: "s mod 86400 mod 3600 = s mod 3600" by (rule mod_mod_cancel) simp
  have m3: "s mod 3600 mod 60 = s mod 60" by (rule mod_mod_cancel) simp
  have "display_loop intervals s [] =
      (if s div 604800 \<noteq> 0 then [render_unit (s div 604800, ''week'')] else []) @
      (if s mod 604800 div 86400 \<noteq> 0 then [render_unit (s mod 604800 div 86400, ''day'')] else []) @
      (if s mod 86400 div 3600 \<noteq> 0 then [render_unit (s mod 86400 div 3600, ''hour'')] else []) @
      (if s mod 3600 div 60 \<noteq> 0 then [render_unit (s mod 3600 div 60, ''minute'')] else []) @
      (if s mod 60 \<noteq> 0 then [render_unit (s mod 60, ''second'')] else [])"
    unfolding intervals_def display_loop_step m1 m2 m3 display_loop.simps(1) rstrip_units
    by (simp only: render_unit_def fst_conv snd_conv append.simps append_assoc div_by_1)
  also have "\<dots> = map render_unit (filter (\<lambda>p. fst p \<noteq> 0) (unit_amounts s))"
    unfolding unit_amounts_def map_filter_Cons by (simp only: fst_conv filter.simps list.map append_Nil2)
  finally show ?thesis .
qed

text \<open>
  Claim C4. For every non-negative number of seconds \<open>x\<close>, \<open>display_time\<close> with the default
  granularity 2 renders the two largest units among weeks, days, hours, minutes and
  seconds whose amount in \<open>\<lfloor>x\<rfloor>\<close> is not zero, a unit of amount 1 in the singular; and
  90061 seconds are rendered as "1 day, 1 hour".
\<close>

theorem display_time_two_largest_units:
  "(0 \<le> x \<longrightarrow> display_time x 2 = spec_display_time \<lfloor>x\<rfloor>)
   \<and> display_time 90061 2 = ''1 day, 1 hour''"
proof
  show "0 \<le> x \<longrightarrow> display_time x 2 = spec_display_time \<lfloor>x\<rfloor>"
    by (simp add: display_time_def spec_display_time_def py_int_def display_loop_intervals take_map)
  show "display_time 90061 2 = ''1 day, 1 hour''"
    by code_simp
qed

theorem display_time_two_largest_units_witness:
  "(0::rat) \<le> 7451 / 2 \<and> display_time (7451 / 2) 2 = ''1 hour, 2 minutes''
   \<and> spec_display_time \<lfloor>7451 / 2 :: rat\<rfloor> = ''1 hour, 2 minutes''"
proof -
  have h: "(0::rat) \<le> 7451 / 2" by simp
  have s: "spec_display_time \<lfloor>7451 / 2 :: rat\<rfloor> = ''1 hour, 2 minutes''" by code_simp
  from display_time_two_largest_units [of "7451 / 2"] h
  have "display_time (7451 / 2) 2 = spec_display_time \<lfloor>7451 / 2 :: rat\<rfloor>" by blast
  with h s show ?thesis by simp
qed


section \<open>The asset checks\<close>

lemma record_asset_findings_Nil: "record_asset_findings d a [] st = st"
  by (simp add: record_asset_findings_def)

lemma record_asset_findings_single:
  "record_asset_findings d a [msg] st = asset_finding d a msg st"
  by (simp add: record_asset_findings_def)

lemma record_asset_findings_append:
  "record_asset_findings d a (fs @ gs) st =
     record_asset_findings d a gs (record_asset_findings d a fs st)"
  by (simp add: record_asset_findings_def)

lemma errors_asset_finding: "errors (asset_finding d a msg st) = errors st @ [msg]"
  by (simp add: asset_finding_def asset_result_append_def errors_append_def)

lemma device_level_asset_finding:
  "device_level (asset_finding d a msg st) = device_level st"
  by (auto simp add: device_level_def asset_finding_def asset_result_append_def errors_append_def
        fun_eq_iff split: option.splits)

lemma clock_reads_asset_finding: "clock_reads (asset_finding d a msg st) = clock_reads st"
  by (simp add: asset_finding_def asset_result_append_def errors_append_def)

lemma errors_record_asset_findings:
  "errors (record_asset_findings d a fs st) = errors st @ fs"
  unfolding record_asset_findings_def
  by (induction fs arbitrary: st) (simp_all add: errors_asset_finding)

lemma device_level_record_asset_findings:
  "device_level (record_asset_findings d a fs st) = device_level st"
  unfolding record_asset_findings_def
  by (induction fs arbitrary: st) (simp_all add: device_level_asset_finding)

lemma fromtimestamp_ok: "timestamp_ok ts \<Longrightarrow> fromtimestamp w ts = Inr (ts * 1000000)"
  by (simp add: fromtimestamp_def)

lemma fromtimestamp_raises:
  "\<not> timestamp_ok ts \<Longrightarrow> fromtimestamp w ts = Inl (timestamp_error w ts)"
  by (simp add: fromtimestamp_def)

lemma timestamp_ok_0: "timestamp_ok 0"
  by (simp add: timestamp_ok_def)

lemma backup_block:
  "(if of_int LAST_BACKUP_THRESHOLD < total_seconds (now - lastSnapshot a * 1000000) then
      (case backup_check d a (total_seconds (now - lastSnapshot a * 1000000)) st of
         Inl IndexError \<Rightarrow> Inr (asset_finding d a (no_backups_msg (agent_name a)) st)
       | Inl e \<Rightarrow> Inl e
       | Inr st' \<Rightarrow> Inr st')
    else Inr st)
   = Inr (record_asset_findings d a (backup_findings a now) st)"
  by (cases "backups a")
     (simp_all add: backup_check_def backup_findings_def Let_def record_asset_findings_Nil
        record_asset_findings_single)

lemma offsite_check_ok:
  assumes "case latestOffsite a of None \<Rightarrow> True | Some ts \<Rightarrow> timestamp_ok ts"
  shows "offsite_check w d a now st = Inr (record_asset_findings d a (offsite_findings a now) st)"
  using assms
  by (cases "latestOffsite a")
     (simp_all add: offsite_check_def offsite_findings_def Let_def fromtimestamp_ok
        record_asset_findings_Nil record_asset_findings_single)

lemma offsite_check_raises:
  assumes "latestOffsite a = Some ts" and "\<not> timestamp_ok ts"
  shows "offsite_check w d a now st = Inl (timestamp_error w ts)"
proof -
  from assms have "ts \<noteq> 0" using timestamp_ok_0 by auto
  with assms show ?thesis by (simp add: offsite_check_def fromtimestamp_raises)
qed

lemma screenshot_time_check_ok:
  assumes "case lastScreenshotAttempt a of
             None \<Rightarrow> True | Some ts \<Rightarrow> agent_type a = ''agent'' \<longrightarrow> timestamp_ok ts"
  shows "screenshot_time_check w d a now st =
           Inr (record_asset_findings d a (screenshot_time_findings a now) st)"
  using assms
  by (cases "lastScreenshotAttempt a")
     (simp_all add: screenshot_time_check_def screenshot_time_findings_def Let_def
        fromtimestamp_ok record_asset_findings_Nil record_asset_findings_single)

lemma screenshot_time_check_raises:
  assumes "lastScreenshotAttempt a = Some ts" and "agent_type a = ''agent''"
    and "\<not> timestamp_ok ts"
  shows "screenshot_time_check w d a now st = Inl (timestamp_error w ts)"
proof -
  from assms have "ts \<noteq> 0" using timestamp_ok_0 by auto
  with assms show ?thesis by (simp add: screenshot_time_check_def fromtimestamp_raises)
qed

lemma screenshot_status_check_eq:
  "screenshot_status_check d a st =
     record_asset_findings d a (screenshot_status_findings a) st"
  by (simp add: screenshot_status_check_def screenshot_status_findings_def
        record_asset_findings_Nil record_asset_findings_single)

text \<open>
  An asset that is neither archived nor paused and whose timestamps are in range is
  evaluated to the end: its list in \<open>results_data\<close> is reset, the clock is read once, and
  the findings of the four checks are recorded in their order.
\<close>

lemma check_agent_ok:
  assumes "\<not> isArchived a" and "\<not> isPaused a" and "timestamps_ok a"
  shows "check_agent w d a st =
           Inr (record_asset_findings d a
                  (backup_findings a (clock w (clock_reads st))
                   @ offsite_findings a (clock w (clock_reads st))
                   @ screenshot_time_findings a (clock w (clock_reads st))
                   @ screenshot_status_findings a)
                  ((asset_result_set (name d) (agent_name a) [] st)
                     \<lparr>clock_reads := Suc (clock_reads st)\<rparr>))"
proof -
  from assms(3) have t: "timestamp_ok (lastSnapshot a)"
    "case latestOffsite a of None \<Rightarrow> True | Some ts \<Rightarrow> timestamp_ok ts"
    "case lastScreenshotAttempt a of
       None \<Rightarrow> True | Some ts \<Rightarrow> agent_type a = ''agent'' \<longrightarrow> timestamp_ok ts"
    by (simp_all add: timestamps_ok_def)
  have c: "clock_reads (asset_result_set (name d) (agent_name a) [] st) = clock_reads st"
    by (simp add: asset_result_set_def)
  show ?thesis
    using assms(1,2)
    by (simp add: check_agent_def Let_def datetime_now_def fromtimestamp_ok [OF t(1)] c
          backup_block offsite_check_ok [OF t(2)] screenshot_time_check_ok [OF t(3)]
          screenshot_status_check_eq record_asset_findings_append)
qed

lemma check_agent_raises:
  assumes "\<not> isArchived a" and "\<not> isPaused a" and "\<not> timestamps_ok a"
  shows "\<exists>ts. check_agent w d a st = Inl (timestamp_error w ts)"
proof (cases "timestamp_ok (lastSnapshot a)")
  case False
  then show ?thesis using assms(1,2)
    by (auto simp add: check_agent_def Let_def fromtimestamp_raises)
next
  case snap: True
  have c: "clock_reads (asset_result_set (name d) (agent_name a) [] st) = clock_reads st"
    by (simp add: asset_result_set_def)
  show ?thesis
  proof (cases "case latestOffsite a of None \<Rightarrow> True | Some ts \<Rightarrow> timestamp_ok ts")
    case False
    then obtain ts where ts: "latestOffsite a = Some ts" "\<not> timestamp_ok ts"
      by (auto split: option.splits)
    show ?thesis using assms(1,2)
      by (auto simp add: check_agent_def Let_def datetime_now_def fromtimestamp_ok [OF snap] c
            backup_block offsite_check_raises [OF ts])
  next
    case off: True
    with snap assms(3) obtain ts where
      ts: "lastScreenshotAttempt a = Some ts" "agent_type a = ''agent''" "\<not> timestamp_ok ts"
      by (auto simp add: timestamps_ok_def split: option.splits)
    show ?thesis using assms(1,2)
      by (auto simp add: check_agent_def Let_def datetime_now_def fromtimestamp_ok [OF snap] c
            backup_block offsite_check_ok [OF off] screenshot_time_check_raises [OF ts])
  qed
qed

lemma check_agent_skipped: "isArchived a \<or> isPaused a \<Longrightarrow> check_agent w d a st = Inr st"
  by (auto simp add: check_agent_def)

lemma check_agent_completes:
  assumes "check_agent w d a st = Inr st'" and "\<not> isArchived a" and "\<not> isPaused a"
  shows "timestamps_ok a"
  using check_agent_raises [OF assms(2,3), of w d st] assms(1) by auto

lemma agent_findings_ok:
  assumes "\<not> isArchived a" and "\<not> isPaused a" and "timestamps_ok a"
  shows "agent_findings w d a st =
           Inr (backup_findings a (clock w (clock_reads st))
                @ offsite_findings a (clock w (clock_reads st))
                @ screenshot_time_findings a (clock w (clock_reads st))
                @ screenshot_status_findings a)"
  by (simp add: agent_findings_def check_agent_ok [OF assms] errors_record_asset_findings
        asset_result_set_def)


subsection \<open>Time differences against the thresholds\<close>

text \<open>
  \<open>total_seconds\<close> rounds, but on whole microseconds the comparisons of the script decide
  exactly what the unrounded differences decide.
\<close>

lemma total_seconds_mono: "m \<le> n \<Longrightarrow> total_seconds m \<le> total_seconds n"
  unfolding total_seconds_def by (rule to_double_mono) (simp add: divide_right_mono)

lemma checkin_limit_exact:
  "(of_int CHECKIN_LIMIT \<le> total_seconds m) = (1200000000 \<le> m)"
proof
  assume "of_int CHECKIN_LIMIT \<le> total_seconds m"
  show "1200000000 \<le> m"
  proof (rule ccontr)
    assume "\<not> 1200000000 \<le> m"
    then have "m \<le> 1199999999" by simp
    then have "total_seconds m \<le> total_seconds 1199999999" by (rule total_seconds_mono)
    also have "total_seconds 1199999999 < of_int CHECKIN_LIMIT" by code_simp
    finally show False using \<open>of_int CHECKIN_LIMIT \<le> total_seconds m\<close> by simp
  qed
next
  assume "1200000000 \<le> m"
  then have "total_seconds 1200000000 \<le> total_seconds m" by (rule total_seconds_mono)
  moreover have "total_seconds 1200000000 = of_int CHECKIN_LIMIT" by code_simp
  ultimately show "of_int CHECKIN_LIMIT \<le> total_seconds m" by simp
qed

lemma threshold_exact:
  assumes "total_seconds (t * 1000000) = of_int t" "of_int t < total_seconds (t * 1000000 + 1)"
  shows "(of_int t < total_seconds m) = (t * 1000000 < m)"
proof
  assume a: "of_int t < total_seconds m"
  show "t * 1000000 < m"
  proof (rule ccontr)
    assume "\<not> t * 1000000 < m"
    then have "m \<le> t * 1000000" by simp
    then have "total_seconds m \<le> total_seconds (t * 1000000)" by (rule total_seconds_mono)
    with assms(1) a show False by simp
  qed
next
  assume "t * 1000000 < m"
  then have "t * 1000000 + 1 \<le> m" by simp
  then have "total_seconds (t * 1000000 + 1) \<le> total_seconds m" by (rule total_seconds_mono)
  with assms(2) show "of_int t < total_seconds m" by simp
qed

lemma backup_threshold_exact:
  "(of_int LAST_BACKUP_THRESHOLD < total_seconds m) = (43200000000 < m)"
proof -
  have "total_seconds (LAST_BACKUP_THRESHOLD * 1000000) = of_int LAST_BACKUP_THRESHOLD" by code_simp
  moreover have "of_int LAST_BACKUP_THRESHOLD < total_seconds (LAST_BACKUP_THRESHOLD * 1000000 + 1)" by code_simp
  ultimately have "(of_int LAST_BACKUP_THRESHOLD < total_seconds m) = (LAST_BACKUP_THRESHOLD * 1000000 < m)"
    by (rule threshold_exact)
  then show ?thesis by (simp add: LAST_BACKUP_THRESHOLD_def)
qed

lemma offsite_threshold_exact:
  "(of_int LAST_OFFSITE_THRESHOLD < total_seconds m) = (259200000000 < m)"
proof -
  have "total_seconds (LAST_OFFSITE_THRESHOLD * 1000000) = of_int LAST_OFFSITE_THRESHOLD" by code_simp
  moreover have "of_int LAST_OFFSITE_THRESHOLD < total_seconds (LAST_OFFSITE_THRESHOLD * 1000000 + 1)" by code_simp
  ultimately have "(of_int LAST_OFFSITE_THRESHOLD < total_seconds m) = (LAST_OFFSITE_THRESHOLD * 1000000 < m)"
    by (rule threshold_exact)
  then show ?thesis by (simp add: LAST_OFFSITE_THRESHOLD_def)
qed

lemma screenshot_threshold_exact:
  "(of_int LAST_SCREENSHOT_THRESHOLD < total_seconds m) = (172800000000 < m)"
proof -
  have "total_seconds (LAST_SCREENSHOT_THRESHOLD * 1000000) = of_int LAST_SCREENSHOT_THRESHOLD" by code_simp
  moreover have "of_int LAST_SCREENSHOT_THRESHOLD < total_seconds (LAST_SCREENSHOT_THRESHOLD * 1000000 + 1)" by code_simp
  ultimately have "(of_int LAST_SCREENSHOT_THRESHOLD < total_seconds m) = (LAST_SCREENSHOT_THRESHOLD * 1000000 < m)"
    by (rule threshold_exact)
  then show ?thesis by (simp add: LAST_SCREENSHOT_THRESHOLD_def)
qed

subsection \<open>The texts of the findings differ\<close>

lemma backup_failed_msg_distinct:
  "backup_failed_msg n s m \<noteq> no_backups_msg n"
  "backup_failed_msg n s m \<noteq> no_offsite_msg n"
  "backup_failed_msg n s m \<noteq> stale_offsite_msg n s'"
  "backup_failed_msg n s m \<noteq> stale_screenshot_msg n s'"
  "backup_failed_msg n s m \<noteq> failed_screenshot_msg n"
  by (simp_all add: backup_failed_msg_def no_backups_msg_def no_offsite_msg_def
        stale_offsite_msg_def stale_screenshot_msg_def failed_screenshot_msg_def)

lemma stale_screenshot_msg_distinct:
  "stale_screenshot_msg n s \<noteq> no_backups_msg n"
  "stale_screenshot_msg n s \<noteq> no_offsite_msg n"
  "stale_screenshot_msg n s \<noteq> stale_offsite_msg n s'"
  "stale_screenshot_msg n s \<noteq> backup_failed_msg n s' m"
  "stale_screenshot_msg n s \<noteq> failed_screenshot_msg n"
  by (simp_all add: backup_failed_msg_def no_backups_msg_def no_offsite_msg_def
        stale_offsite_msg_def stale_screenshot_msg_def failed_screenshot_msg_def)

lemma failed_screenshot_msg_distinct:
  "failed_screenshot_msg n \<noteq> no_backups_msg n"
  "failed_screenshot_msg n \<noteq> no_offsite_msg n"
  "failed_screenshot_msg n \<noteq> stale_offsite_msg n s'"
  "failed_screenshot_msg n \<noteq> backup_failed_msg n s' m"
  "failed_screenshot_msg n \<noteq> stale_screenshot_msg n s'"
  by (simp_all add: backup_failed_msg_def no_backups_msg_def no_offsite_msg_def
        stale_offsite_msg_def stale_screenshot_msg_def failed_screenshot_msg_def)


lemmas example_defs = example_agent_def example_device_def example_world_def init_state_def
  example_strptime_def

section \<open>The storage check\<close>

lemma to_double_one: "to_double 1 = 1" by code_simp

lemma ratio_bounds:
  assumes "0 \<le> u" "0 \<le> a" "0 < u + a"
  shows "0 \<le> (of_int u / of_int (a + u) :: rat)" "(of_int u / of_int (a + u) :: rat) \<le> 1"
proof -
  have p: "(0::rat) < of_int (a + u)" using assms by simp
  show "0 \<le> (of_int u / of_int (a + u) :: rat)" using assms p by simp
  have "(of_int u :: rat) \<le> of_int (a + u)" using assms by simp
  then show "(of_int u / of_int (a + u) :: rat) \<le> 1" using p by (simp add: pos_divide_le_eq)
qed

lemma to_double_unit:
  assumes "0 \<le> x" "x \<le> 1"
  shows "0 \<le> to_double x" "to_double x \<le> 1"
  using to_double_nonneg [OF assms(1)] to_double_mono [OF assms(2)] by (simp_all add: to_double_one)

lemma double_max_bound_gt: "x \<le> 100 \<Longrightarrow> x < double_max_bound"
  by (simp add: double_max_bound_def)

lemma int_truediv_ratio:
  assumes "0 \<le> u" "0 \<le> a" "0 < u + a"
  shows "int_truediv u (a + u) = Inr (to_double (of_int u / of_int (a + u)))"
proof -
  note b = to_double_unit [OF ratio_bounds [OF assms]]
  have "\<bar>to_double (of_int u / of_int (a + u))\<bar> < double_max_bound"
    using b double_max_bound_gt [of "to_double (of_int u / of_int (a + u))"] by simp
  then show ?thesis using assms by (simp add: int_truediv_def Let_def)
qed

lemma scaled_rounded:
  assumes "0 \<le> q" "q \<le> 1"
  shows "\<exists>p. float_mul (float_of_decimal (format_2f q)) 100 = Finite p
           \<and> (95 < p) = (96 \<le> round_half_even (q * 100))"
proof -
  let ?k = "round_half_even (q * 100)"
  let ?v = "to_double (of_int ?k / 100)"
  let ?p = "to_double (?v * 100)"
  have k0: "0 \<le> ?k" using assms by (intro round_half_even_ge) simp
  have k1: "?k \<le> 100" using assms by (intro round_half_even_le) simp
  have v: "0 \<le> ?v" "?v \<le> 1" using k0 k1 by (intro to_double_unit; simp)+
  have p0: "0 \<le> ?p" using v by (intro to_double_nonneg) simp
  have "?p \<le> to_double 100" using v by (intro to_double_mono) simp
  also have "to_double 100 = 100" by code_simp
  finally have p1: "?p \<le> 100" .
  have fin: "float_mul (float_of_decimal (format_2f q)) 100 = Finite ?p"
    using p0 double_max_bound_gt [OF p1]
    by (simp add: float_mul_def float_of_decimal_def format_2f_def Let_def double_max_bound_def)
  have "(95 < ?p) = (96 \<le> ?k)"
  proof
    assume "96 \<le> ?k"
    then have "(96 / 100 :: rat) \<le> of_int ?k / 100" by simp
    then have "to_double (96 / 100) \<le> ?v" by (rule to_double_mono)
    then have "to_double (to_double (96 / 100) * 100) \<le> ?p" by (intro to_double_mono) simp
    moreover have "to_double (to_double (96 / 100) * 100) = 96" by code_simp
    ultimately show "95 < ?p" by simp
  next
    assume a: "95 < ?p"
    show "96 \<le> ?k"
    proof (rule ccontr)
      assume "\<not> 96 \<le> ?k"
      then have "?k \<le> 95" by simp
      then have "of_int ?k / 100 \<le> (95 / 100 :: rat)" by simp
      then have "?v \<le> to_double (95 / 100)" by (rule to_double_mono)
      then have "?p \<le> to_double (to_double (95 / 100) * 100)" by (intro to_double_mono) simp
      moreover have "to_double (to_double (95 / 100) * 100) = 95" by code_simp
      ultimately show False using a by simp
    qed
  qed
  with fin show ?thesis by blast
qed

lemma storage_pct_ratio:
  assumes "0 \<le> u" "0 \<le> a" "0 < u + a"
  shows "\<exists>p. storage_pct u (a + u) = Inr (Finite p)
           \<and> (95 < p) = (96 \<le> round_half_even (to_double (of_int u / of_int (a + u)) * 100))"
  using scaled_rounded [OF to_double_unit [OF ratio_bounds [OF assms]]]
  by (simp add: storage_pct_def int_truediv_ratio [OF assms])

lemma storage_pct_zero_total: "storage_pct u 0 = Inl ZeroDivisionError"
  by (simp add: storage_pct_def int_truediv_def)

section \<open>The asset loop\<close>

lemma device_level_asset_result_set:
  "device_level (asset_result_set dn an v st) = device_level st"
  by (auto simp add: device_level_def asset_result_set_def fun_eq_iff split: option.splits)

lemma errors_asset_result_set: "errors (asset_result_set dn an v st) = errors st"
  by (simp add: asset_result_set_def)

lemma device_level_clock_reads:
  "device_level (st\<lparr>clock_reads := n\<rparr>) = device_level st"
  by (simp add: device_level_def)

lemma check_agent_Inr:
  assumes "check_agent w d a st = Inr st'"
  shows "device_level st' = device_level st \<and> (\<exists>fs. errors st' = errors st @ fs)"
proof (cases "isArchived a \<or> isPaused a")
  case True
  with assms show ?thesis by (simp add: check_agent_skipped)
next
  case False
  then have na: "\<not> isArchived a" "\<not> isPaused a" by simp_all
  from check_agent_completes [OF assms na] have ok: "timestamps_ok a" .
  from assms show ?thesis
    unfolding check_agent_ok [OF na ok]
    by (auto simp add: device_level_record_asset_findings errors_record_asset_findings
          device_level_clock_reads device_level_asset_result_set errors_asset_result_set)
qed

lemma check_agent_Inr_findings:
  assumes "check_agent w d a st = Inr st'" and "\<not> isArchived a" and "\<not> isPaused a"
  shows "errors st' = errors st
           @ backup_findings a (clock w (clock_reads st))
           @ offsite_findings a (clock w (clock_reads st))
           @ screenshot_time_findings a (clock w (clock_reads st))
           @ screenshot_status_findings a"
proof -
  from check_agent_completes [OF assms] have ok: "timestamps_ok a" .
  from assms(1) show ?thesis
    unfolding check_agent_ok [OF assms(2,3) ok]
    by (auto simp add: errors_record_asset_findings errors_asset_result_set)
qed

lemma agent_loop_Inr:
  assumes "agent_loop w d as st = Inr st'"
  shows "device_level st' = device_level st \<and> (\<exists>fs. errors st' = errors st @ fs)"
  using assms
proof (induction as arbitrary: st)
  case Nil
  then show ?case by simp
next
  case (Cons a as)
  from Cons.prems obtain st1 where
    1: "check_agent w d a st = Inr st1" "agent_loop w d as st1 = Inr st'"
    by (auto split: sum.splits)
  from check_agent_Inr [OF 1(1)] Cons.IH [OF 1(2)] show ?case by auto
qed

text \<open>
  A finding that an asset of the list gets at whatever time it is evaluated is in
  \<open>errors\<close> when the loop has ended.
\<close>

lemma agent_loop_finding:
  assumes "agent_loop w d as st = Inr st'" and "a \<in> set as"
    and "\<not> isArchived a" and "\<not> isPaused a"
    and "\<And>n. msg \<in> set (backup_findings a (clock w n) @ offsite_findings a (clock w n)
                        @ screenshot_time_findings a (clock w n) @ screenshot_status_findings a)"
  shows "msg \<in> set (errors st')"
  using assms(1,2)
proof (induction as arbitrary: st)
  case Nil
  then show ?case by simp
next
  case (Cons b as)
  from Cons.prems(1) obtain st1 where
    1: "check_agent w d b st = Inr st1" "agent_loop w d as st1 = Inr st'"
    by (auto split: sum.splits)
  show ?case
  proof (cases "a = b")
    case True
    from check_agent_Inr_findings [OF 1(1) [folded True] assms(3,4)] assms(5)
    have "msg \<in> set (errors st1)" by auto
    with agent_loop_Inr [OF 1(2)] show ?thesis by auto
  next
    case False
    with Cons.prems(2) have "a \<in> set as" by simp
    from Cons.IH [OF 1(2) this] show ?thesis .
  qed
qed

lemma agent_loop_ok:
  assumes "\<forall>a \<in> set as. isArchived a \<or> isPaused a \<or> timestamps_ok a"
  shows "\<exists>st'. agent_loop w d as st = Inr st'"
  using assms
proof (induction as arbitrary: st)
  case Nil
  then show ?case by simp
next
  case (Cons a as)
  have "\<exists>st1. check_agent w d a st = Inr st1"
  proof (cases "isArchived a \<or> isPaused a")
    case True
    then show ?thesis by (simp add: check_agent_skipped)
  next
    case False
    with Cons.prems have "\<not> isArchived a" "\<not> isPaused a" "timestamps_ok a" by auto
    from check_agent_ok [OF this] show ?thesis by simp
  qed
  then obtain st1 where 1: "check_agent w d a st = Inr st1" ..
  from Cons.IH [of st1] Cons.prems obtain st' where "agent_loop w d as st1 = Inr st'" by auto
  with 1 show ?case by simp
qed

section \<open>One device\<close>




lemma device_iteration_online_eq:
  assumes "\<not> hidden d"
    and "strptime w (take 22 (lastSeenDate d) @ drop 23 (lastSeenDate d)) = Some checkin"
    and "clock w (clock_reads st) - checkin < 1200 * 1000000"
    and "storage_pct (localStorageUsed_size d) (localStorageAvailable_size d + localStorageUsed_size d)
           = Inr pct"
  shows "device_iteration w d st =
      (case agent_loop w d (asset_lists w (API_BASE_URI @ ''/'' @ serialNumber d @ ''/asset''))
              (before_assets w d pct st) of
         Inl e \<Rightarrow> Inl e
       | Inr st2 \<Rightarrow> Inr (if errors st2 \<noteq> [] then printErrors (errors st2) (name d) st2 else st2))"
  using assms
  by (simp add: device_iteration_def datetime_now_def Let_def checkin_limit_exact
        getAssetDetails_def before_assets_def)


lemma device_iteration_online_finding:
  assumes "\<not> hidden d"
    and "strptime w (take 22 (lastSeenDate d) @ drop 23 (lastSeenDate d)) = Some checkin"
    and "clock w (clock_reads st) - checkin < 1200 * 1000000"
    and "device_iteration w d st = Inr st'"
    and "a \<in> set (asset_lists w (API_BASE_URI @ ''/'' @ serialNumber d @ ''/asset''))"
    and "\<not> isArchived a" and "\<not> isPaused a"
    and "\<And>n. msg \<in> set (backup_findings a (clock w n) @ offsite_findings a (clock w n)
                        @ screenshot_time_findings a (clock w n) @ screenshot_status_findings a)"
  shows "msg \<in> set (errors st') \<and> msg \<in> set (MSG_BODY st') \<and> msg \<in> set (stdout st')"
proof -
  let ?url = "API_BASE_URI @ ''/'' @ serialNumber d @ ''/asset''"
  obtain pct where sp: "storage_pct (localStorageUsed_size d)
      (localStorageAvailable_size d + localStorageUsed_size d) = Inr pct"
  proof (cases "storage_pct (localStorageUsed_size d)
      (localStorageAvailable_size d + localStorageUsed_size d)")
    case (Inl e)
    with assms(1-4) show ?thesis
      by (simp add: device_iteration_def datetime_now_def Let_def checkin_limit_exact)
  next
    case (Inr pct)
    then show ?thesis by (rule that)
  qed
  from assms(4) device_iteration_online_eq [OF assms(1-3) sp] obtain st2 where
    al: "agent_loop w d (asset_lists w ?url) (before_assets w d pct st) = Inr st2"
    and st': "st' = (if errors st2 \<noteq> [] then printErrors (errors st2) (name d) st2 else st2)"
    by (auto split: sum.splits)
  from agent_loop_finding [OF al assms(5,6,7,8)] have m: "msg \<in> set (errors st2)" .
  then have ne: "errors st2 \<noteq> []" by auto
  from m ne show ?thesis by (simp add: st' printErrors_def)
qed

lemma device_iteration_completes:
  assumes "\<not> hidden d"
    and "strptime w (take 22 (lastSeenDate d) @ drop 23 (lastSeenDate d)) = Some checkin"
    and "clock w (clock_reads st) - checkin < 1200 * 1000000"
    and "storage_pct (localStorageUsed_size d) (localStorageAvailable_size d + localStorageUsed_size d)
           = Inr pct"
    and "\<forall>a \<in> set (asset_lists w (API_BASE_URI @ ''/'' @ serialNumber d @ ''/asset'')).
           isArchived a \<or> isPaused a \<or> timestamps_ok a"
  shows "\<exists>st'. device_iteration w d st = Inr st'"
proof -
  from agent_loop_ok [OF assms(5), of w d "before_assets w d pct st"] obtain st2 where
    "agent_loop w d (asset_lists w (API_BASE_URI @ ''/'' @ serialNumber d @ ''/asset''))
       (before_assets w d pct st) = Inr st2" ..
  then show ?thesis by (simp add: device_iteration_online_eq [OF assms(1-4)])
qed

section \<open>Claims about the asset checks\<close>

text \<open>
  Claim C5, amended. A non-archived, non-paused asset with an empty backup history whose
  timestamps are in the range of the library: when its last snapshot is more than 12
  hours before the clock reading, the evaluation ends normally, the \<^verbatim>\<open>IndexError\<close> of the
  empty history is caught, the first finding added is "does not seem to have any backups"
  and no "Last scheduled backup failed" finding of the asset is added. And when such an
  asset belongs to a visible, online device whose iteration ends normally, and its last
  snapshot is more than 12 hours before every clock reading, the finding is in the report
  buffer and among the printed lines.
\<close>

theorem no_backup_history_is_a_finding:
  assumes "\<not> isArchived a" and "\<not> isPaused a" and "backups a = []" and "timestamps_ok a"
  shows "(12 * 60 * 60 * 1000000 < clock w (clock_reads st) - lastSnapshot a * 1000000 \<longrightarrow>
            (\<exists>rest. agent_findings w d a st = Inr (no_backups_msg (agent_name a) # rest)
               \<and> (\<forall>secs msg. backup_failed_msg (agent_name a) secs msg
                      \<notin> set (no_backups_msg (agent_name a) # rest))))
         \<and> (\<not> hidden d
            \<and> strptime w (take 22 (lastSeenDate d) @ drop 23 (lastSeenDate d)) = Some checkin
            \<and> clock w (clock_reads st) - checkin < 1200 * 1000000
            \<and> a \<in> set (asset_lists w (API_BASE_URI @ ''/'' @ serialNumber d @ ''/asset''))
            \<and> (\<forall>n. 12 * 60 * 60 * 1000000 < clock w n - lastSnapshot a * 1000000)
            \<and> device_iteration w d st = Inr st'
            \<longrightarrow> no_backups_msg (agent_name a) \<in> set (MSG_BODY st')
                \<and> no_backups_msg (agent_name a) \<in> set (stdout st'))"
proof (intro conjI impI)
  assume el: "12 * 60 * 60 * 1000000 < clock w (clock_reads st) - lastSnapshot a * 1000000"
  let ?now = "clock w (clock_reads st)"
  let ?rest = "offsite_findings a ?now @ screenshot_time_findings a ?now
                 @ screenshot_status_findings a"
  have b: "backup_findings a ?now = [no_backups_msg (agent_name a)]"
    using assms(3) el by (simp add: backup_findings_def backup_threshold_exact)
  have eq: "agent_findings w d a st = Inr (no_backups_msg (agent_name a) # ?rest)"
    using agent_findings_ok [OF assms(1,2,4), of w d st] b by simp
  have "backup_failed_msg (agent_name a) secs msg \<notin> set (no_backups_msg (agent_name a) # ?rest)"
    for secs msg
    by (auto simp add: offsite_findings_def screenshot_time_findings_def
          screenshot_status_findings_def backup_failed_msg_distinct
          split: option.splits if_splits)
  with eq show "\<exists>rest. agent_findings w d a st = Inr (no_backups_msg (agent_name a) # rest)
               \<and> (\<forall>secs msg. backup_failed_msg (agent_name a) secs msg
                      \<notin> set (no_backups_msg (agent_name a) # rest))"
    by blast
next
  assume h: "\<not> hidden d
            \<and> strptime w (take 22 (lastSeenDate d) @ drop 23 (lastSeenDate d)) = Some checkin
            \<and> clock w (clock_reads st) - checkin < 1200 * 1000000
            \<and> a \<in> set (asset_lists w (API_BASE_URI @ ''/'' @ serialNumber d @ ''/asset''))
            \<and> (\<forall>n. 12 * 60 * 60 * 1000000 < clock w n - lastSnapshot a * 1000000)
            \<and> device_iteration w d st = Inr st'"
  have m: "no_backups_msg (agent_name a)
             \<in> set (backup_findings a (clock w n) @ offsite_findings a (clock w n)
                    @ screenshot_time_findings a (clock w n) @ screenshot_status_findings a)"
    for n
    using assms(3) h by (simp add: backup_findings_def backup_threshold_exact)
  from h have h': "\<not> hidden d"
    "strptime w (take 22 (lastSeenDate d) @ drop 23 (lastSeenDate d)) = Some checkin"
    "clock w (clock_reads st) - checkin < 1200 * 1000000"
    "device_iteration w d st = Inr st'"
    "a \<in> set (asset_lists w (API_BASE_URI @ ''/'' @ serialNumber d @ ''/asset''))"
    by simp_all
  from device_iteration_online_finding [OF h' assms(1,2) m]
  show "no_backups_msg (agent_name a) \<in> set (MSG_BODY st')"
    and "no_backups_msg (agent_name a) \<in> set (stdout st')" by simp_all
qed

theorem no_backup_history_is_a_finding_witness:
  "(\<exists>rest. agent_findings
       (example_world [] [example_agent ''srv'' ''share'' 1699000000 (Some 1700000000) None] False)
       (example_device ''nas'' False ''2023-11-14T22:13:20+00:00'' 50 50)
       (example_agent ''srv'' ''share'' 1699000000 (Some 1700000000) None) init_state
     = Inr (no_backups_msg ''srv'' # rest))
   \<and> (\<exists>st'. device_iteration
       (example_world [] [example_agent ''srv'' ''share'' 1699000000 (Some 1700000000) None] False)
       (example_device ''nas'' False ''2023-11-14T22:13:20+00:00'' 50 50) init_state = Inr st'
     \<and> no_backups_msg ''srv'' \<in> set (MSG_BODY st')
     \<and> no_backups_msg ''srv'' \<in> set (stdout st'))"
proof -
  let ?a = "example_agent ''srv'' ''share'' 1699000000 (Some 1700000000) None"
  let ?d = "example_device ''nas'' False ''2023-11-14T22:13:20+00:00'' 50 50"
  let ?w = "example_world [] [?a] False"
  have h: "\<not> isArchived ?a" "\<not> isPaused ?a" "backups ?a = []" "timestamps_ok ?a"
    by (simp_all add: example_agent_def timestamps_ok_def timestamp_ok_def)
  have n: "agent_name ?a = ''srv''" by (simp add: example_agent_def)
  have el: "12 * 60 * 60 * 1000000 < clock ?w n - lastSnapshot ?a * 1000000" for n
    by (simp add: example_defs)
  have dv: "\<not> hidden ?d"
    "strptime ?w (take 22 (lastSeenDate ?d) @ drop 23 (lastSeenDate ?d)) = Some 1700000000000000"
    "clock ?w (clock_reads init_state) - 1700000000000000 < 1200 * 1000000"
    by (simp_all add: example_defs)
  have al: "asset_lists ?w (API_BASE_URI @ ''/'' @ serialNumber ?d @ ''/asset'') = [?a]"
    by (simp add: example_world_def)
  from storage_pct_ratio [of 50 50] obtain p where
    "storage_pct 50 (50 + 50) = Inr (Finite p)" by auto
  then have sp: "storage_pct (localStorageUsed_size ?d)
      (localStorageAvailable_size ?d + localStorageUsed_size ?d) = Inr (Finite p)"
    by (simp add: example_device_def)
  have "\<forall>a \<in> set (asset_lists ?w (API_BASE_URI @ ''/'' @ serialNumber ?d @ ''/asset'')).
          isArchived a \<or> isPaused a \<or> timestamps_ok a"
    unfolding al using h(4) by simp
  from device_iteration_completes [OF dv sp this] obtain st' where
    di: "device_iteration ?w ?d init_state = Inr st'" ..
  note t = no_backup_history_is_a_finding
    [where w = ?w and st = init_state and d = ?d and checkin = 1700000000000000 and st' = st',
     OF h]
  from t el have 1: "\<exists>rest. agent_findings ?w ?d ?a init_state = Inr (no_backups_msg ''srv'' # rest)"
    unfolding n by blast
  from t dv al el di have 2: "no_backups_msg ''srv'' \<in> set (MSG_BODY st')
      \<and> no_backups_msg ''srv'' \<in> set (stdout st')"
    unfolding n by simp
  from 1 2 di show ?thesis by blast
qed

text \<open>
  The claim as worded has the evaluation never raise. The conversions of the timestamps
  are outside the \<^verbatim>\<open>try\<close>: an asset with an empty history and an old snapshot, whose
  off-site timestamp lies beyond the year 9999, ends the evaluation with the library's
  exception.
\<close>

theorem no_backup_history_raises_counterexample:
  "\<not> isArchived (example_agent ''srv'' ''share'' 1699000000 (Some 300000000000) None)
   \<and> \<not> isPaused (example_agent ''srv'' ''share'' 1699000000 (Some 300000000000) None)
   \<and> backups (example_agent ''srv'' ''share'' 1699000000 (Some 300000000000) None) = []
   \<and> 12 * 60 * 60 * 1000000
       < clock (example_world [] [] False) (clock_reads init_state) - 1699000000 * 1000000
   \<and> agent_findings (example_world [] [] False)
       (example_device ''nas'' False ''2023-11-14T22:13:20+00:00'' 50 50)
       (example_agent ''srv'' ''share'' 1699000000 (Some 300000000000) None) init_state
       = Inl ValueError"
  by code_simp







text \<open>
  Claim C8, amended. For a non-archived, non-paused asset of type "agent" whose
  timestamps are in the range of the library: a last-screenshot-attempt timestamp that is
  present and not 0, more than 48 hours before the clock reading, gives the
  stale-screenshot finding; a last-screenshot-attempt status that is \<^verbatim>\<open>False\<close> gives the
  failed-screenshot finding, whatever the timestamp is. For an asset of another type
  neither finding is added.
\<close>

theorem screenshot_findings_for_agents_only:
  assumes "\<not> isArchived a" and "\<not> isPaused a" and "timestamps_ok a"
  shows "\<exists>fs. agent_findings w d a st = Inr fs
           \<and> (agent_type a = ''agent'' \<longrightarrow>
                (\<forall>ts. lastScreenshotAttempt a = Some ts \<and> ts \<noteq> 0
                        \<and> 48 * 60 * 60 * 1000000 < clock w (clock_reads st) - ts * 1000000
                   \<longrightarrow> stale_screenshot_msg (agent_name a)
                          (total_seconds (clock w (clock_reads st) - ts * 1000000)) \<in> set fs)
                \<and> (lastScreenshotAttemptStatus a = Some False
                   \<longrightarrow> failed_screenshot_msg (agent_name a) \<in> set fs))
           \<and> (agent_type a \<noteq> ''agent'' \<longrightarrow>
                (\<forall>secs. stale_screenshot_msg (agent_name a) secs \<notin> set fs)
                \<and> failed_screenshot_msg (agent_name a) \<notin> set fs)"
proof -
  let ?now = "clock w (clock_reads st)"
  let ?fs = "backup_findings a ?now @ offsite_findings a ?now
               @ screenshot_time_findings a ?now @ screenshot_status_findings a"
  have eq: "agent_findings w d a st = Inr ?fs" using assms by (rule agent_findings_ok)
  have stale: "stale_screenshot_msg (agent_name a) (total_seconds (?now - ts * 1000000)) \<in> set ?fs"
    if "agent_type a = ''agent''" "lastScreenshotAttempt a = Some ts" "ts \<noteq> 0"
      "48 * 60 * 60 * 1000000 < ?now - ts * 1000000" for ts
    using that by (simp add: screenshot_time_findings_def screenshot_threshold_exact)
  have failed: "failed_screenshot_msg (agent_name a) \<in> set ?fs"
    if "agent_type a = ''agent''" "lastScreenshotAttemptStatus a = Some False"
    using that by (simp add: screenshot_status_findings_def)
  have none1: "stale_screenshot_msg (agent_name a) secs \<notin> set ?fs"
    if "agent_type a \<noteq> ''agent''" for secs
    using that
    by (auto simp add: backup_findings_def offsite_findings_def screenshot_time_findings_def
          screenshot_status_findings_def stale_screenshot_msg_distinct Let_def
          split: option.splits if_splits list.splits)
  have none2: "failed_screenshot_msg (agent_name a) \<notin> set ?fs"
    if "agent_type a \<noteq> ''agent''"
    using that
    by (auto simp add: backup_findings_def offsite_findings_def screenshot_time_findings_def
          screenshot_status_findings_def failed_screenshot_msg_distinct Let_def
          split: option.splits if_splits list.splits)
  from eq stale failed none1 none2 show ?thesis by blast
qed

theorem screenshot_findings_for_agents_only_witness:
  "timestamps_ok ((example_agent ''srv'' ''agent'' 1700000000 (Some 1700000000) (Some 1699000000))
             \<lparr>lastScreenshotAttemptStatus := Some False\<rparr>)
   \<and> (\<exists>fs. agent_findings (example_world [] [] False)
          (example_device ''nas'' False ''2023-11-14T22:13:20+00:00'' 50 50)
          ((example_agent ''srv'' ''agent'' 1700000000 (Some 1700000000) (Some 1699000000))
             \<lparr>lastScreenshotAttemptStatus := Some False\<rparr>) init_state = Inr fs
        \<and> stale_screenshot_msg ''srv'' (total_seconds 1000060000000) \<in> set fs
        \<and> failed_screenshot_msg ''srv'' \<in> set fs)"
proof -
  let ?a = "(example_agent ''srv'' ''agent'' 1700000000 (Some 1700000000) (Some 1699000000))
             \<lparr>lastScreenshotAttemptStatus := Some False\<rparr>"
  let ?w = "example_world [] [] False"
  have h: "\<not> isArchived ?a" "\<not> isPaused ?a" "timestamps_ok ?a"
    by (simp_all add: example_defs timestamps_ok_def timestamp_ok_def)
  have g: "agent_type ?a = ''agent''" "lastScreenshotAttempt ?a = Some 1699000000"
    "(1699000000::int) \<noteq> 0"
    "48 * 60 * 60 * 1000000 < clock ?w (clock_reads init_state) - 1699000000 * 1000000"
    "lastScreenshotAttemptStatus ?a = Some False"
    "agent_name ?a = ''srv''"
    "clock ?w (clock_reads init_state) - 1699000000 * 1000000 = 1000060000000"
    by (simp_all add: example_defs)
  note t = screenshot_findings_for_agents_only
    [where w = ?w and st = init_state
       and d = "example_device ''nas'' False ''2023-11-14T22:13:20+00:00'' 50 50", OF h]
  from t g(1-5) have "\<exists>fs. agent_findings ?w
          (example_device ''nas'' False ''2023-11-14T22:13:20+00:00'' 50 50) ?a init_state = Inr fs
        \<and> stale_screenshot_msg ''srv'' (total_seconds 1000060000000) \<in> set fs
        \<and> failed_screenshot_msg ''srv'' \<in> set fs"
    unfolding g(6,7) by (metis (no_types, lifting) g(7))
  with h(3) show ?thesis by blast
qed

text \<open>
  The claim as worded asks for the stale-screenshot finding whenever the timestamp exists
  and is older than 48 hours. The script tests the truth value of the timestamp, so for
  an agent whose last screenshot attempt is the timestamp 0 no finding is added, though
  that instant lies far more than 48 hours back.
\<close>

theorem zero_screenshot_timestamp_counterexample:
  "agent_type (example_agent ''srv'' ''agent'' 1700000000 (Some 1700000000) (Some 0)) = ''agent''
   \<and> \<not> isArchived (example_agent ''srv'' ''agent'' 1700000000 (Some 1700000000) (Some 0))
   \<and> \<not> isPaused (example_agent ''srv'' ''agent'' 1700000000 (Some 1700000000) (Some 0))
   \<and> lastScreenshotAttempt (example_agent ''srv'' ''agent'' 1700000000 (Some 1700000000) (Some 0))
       = Some 0
   \<and> 48 * 60 * 60 * 1000000
       < clock (example_world [] [] False) (clock_reads init_state) - 0 * 1000000
   \<and> agent_findings (example_world [] [] False)
       (example_device ''nas'' False ''2023-11-14T22:13:20+00:00'' 50 50)
       (example_agent ''srv'' ''agent'' 1700000000 (Some 1700000000) (Some 0)) init_state
       = Inr []"
  by code_simp

section \<open>Claims about the device checks\<close>

lemma is_critical_ticket_msg: "\<not> is_critical (ticket_msg n)"
  by (simp add: is_critical_def ticket_msg_def)

lemma is_critical_checkin_msg: "is_critical (checkin_msg s)"
  by (simp add: is_critical_def checkin_msg_def)

text \<open>
  Claim C3. A visible device whose last check-in lies at least 1200 seconds before the
  clock reading: the evaluation ends with exactly one critical finding (after the ticket
  finding, if the device has active tickets), the device has no asset findings, no
  request for its assets was made, and the findings are printed under the device's header.
\<close>

theorem offline_device_short_circuits:
  assumes "\<not> hidden d"
    and "strptime w (take 22 (lastSeenDate d) @ drop 23 (lastSeenDate d)) = Some checkin"
    and "1200 * 1000000 \<le> clock w (clock_reads st) - checkin"
  shows "\<exists>st'. device_iteration w d st = Inr st'
           \<and> errors st' =
               (if activeTickets d \<noteq> 0 then [ticket_msg (activeTickets d)] else [])
               @ [checkin_msg (total_seconds (clock w (clock_reads st) - checkin))]
           \<and> filter is_critical (errors st') =
               [checkin_msg (total_seconds (clock w (clock_reads st) - checkin))]
           \<and> results_data st' (name d) = Some \<lparr>r_errors = errors st', r_assets = Map.empty\<rparr>
           \<and> requests st' = requests st
           \<and> MSG_BODY st' = MSG_BODY st @ [''--DEVICE: '' @ name d] @ errors st' @ [newline]"
  using assms
  by (simp add: device_iteration_def datetime_now_def Let_def checkin_limit_exact
        device_finding_def device_result_append_def errors_append_def printErrors_def
        is_critical_ticket_msg is_critical_checkin_msg)

theorem offline_device_short_circuits_witness:
  "\<not> hidden (example_device ''nas'' False ''2023-11-14T21:13:20+00:00'' 50 50)
   \<and> 1200 * 1000000 \<le> clock (example_world [] [] False) (clock_reads init_state) - 1699996400000000
   \<and> (\<exists>st'. device_iteration (example_world [] [] False)
               (example_device ''nas'' False ''2023-11-14T21:13:20+00:00'' 50 50) init_state = Inr st'
         \<and> errors st' = [checkin_msg (total_seconds 3660000000)]
         \<and> requests st' = [])"
proof -
  let ?d = "example_device ''nas'' False ''2023-11-14T21:13:20+00:00'' 50 50"
  let ?w = "example_world [] [] False"
  have h: "\<not> hidden ?d"
    "strptime ?w (take 22 (lastSeenDate ?d) @ drop 23 (lastSeenDate ?d)) = Some 1699996400000000"
    "1200 * 1000000 \<le> clock ?w (clock_reads init_state) - 1699996400000000"
    by (simp_all add: example_defs)
  have g: "activeTickets ?d = 0" "requests init_state = []"
    "clock ?w (clock_reads init_state) - 1699996400000000 = 3660000000"
    by (simp_all add: example_defs)
  from offline_device_short_circuits [OF h] h(1,3) show ?thesis
    unfolding g by auto
qed



text \<open>
  Claim C9. The storage check divides by used plus available without a guard: a visible,
  online device whose used and available sizes are both 0 ends the evaluation with
  \<^verbatim>\<open>ZeroDivisionError\<close>; and for sizes that are not negative the percentage is computed
  exactly when used plus available is positive.
\<close>

theorem storage_check_zero_total_raises:
  "(\<not> hidden d
      \<and> strptime w (take 22 (lastSeenDate d) @ drop 23 (lastSeenDate d)) = Some checkin
      \<and> clock w (clock_reads st) - checkin < 1200 * 1000000
      \<and> localStorageUsed_size d = 0 \<and> localStorageAvailable_size d = 0
    \<longrightarrow> device_iteration w d st = Inl ZeroDivisionError)
   \<and> (0 \<le> used \<and> 0 \<le> available
    \<longrightarrow> (\<exists>pct. storage_pct used (available + used) = Inr pct) = (0 < used + available))"
proof (intro conjI impI)
  assume "\<not> hidden d
      \<and> strptime w (take 22 (lastSeenDate d) @ drop 23 (lastSeenDate d)) = Some checkin
      \<and> clock w (clock_reads st) - checkin < 1200 * 1000000
      \<and> localStorageUsed_size d = 0 \<and> localStorageAvailable_size d = 0"
  then show "device_iteration w d st = Inl ZeroDivisionError"
    by (simp add: device_iteration_def datetime_now_def Let_def checkin_limit_exact
          storage_pct_zero_total)
next
  assume h: "0 \<le> used \<and> 0 \<le> available"
  show "(\<exists>pct. storage_pct used (available + used) = Inr pct) = (0 < used + available)"
  proof (cases "0 < used + available")
    case True
    with h storage_pct_ratio [of used available] show ?thesis by auto
  next
    case False
    with h have "available + used = 0" by simp
    with False show ?thesis by (simp add: storage_pct_zero_total)
  qed
qed

theorem storage_check_zero_total_raises_witness:
  "device_iteration (example_world [] [] False)
     (example_device ''nas'' False ''2023-11-14T22:13:20+00:00'' 0 0) init_state
     = Inl ZeroDivisionError
   \<and> (\<exists>pct. storage_pct 5 (5 + 5) = Inr pct)
   \<and> \<not> (\<exists>pct. storage_pct 0 (0 + 0) = Inr pct)"
proof -
  let ?d = "example_device ''nas'' False ''2023-11-14T22:13:20+00:00'' 0 0"
  let ?w = "example_world [] [] False"
  have h: "\<not> hidden ?d
      \<and> strptime ?w (take 22 (lastSeenDate ?d) @ drop 23 (lastSeenDate ?d)) = Some 1700000000000000
      \<and> clock ?w (clock_reads init_state) - 1700000000000000 < 1200 * 1000000
      \<and> localStorageUsed_size ?d = 0 \<and> localStorageAvailable_size ?d = 0"
    by (simp add: example_defs)
  note t = storage_check_zero_total_raises
  from t [of ?d ?w 1700000000000000 init_state 5 5] h
  have a: "device_iteration ?w ?d init_state = Inl ZeroDivisionError"
    "\<exists>pct. storage_pct 5 (5 + 5) = Inr pct" by simp_all
  from t [of ?d ?w 1700000000000000 init_state 0 0]
  have "\<not> (\<exists>pct. storage_pct 0 (0 + 0) = Inr pct)" by simp
  with a show ?thesis by blast
qed





section \<open>The device listing\<close>

lemma str_int_1: "str_int 1 = ''1''" by code_simp

lemma page_url_1: "page_url 1 = API_BASE_URI @ ''?_page=1''"
  by (simp add: page_url_def str_int_1)

lemma fetch_pages_items:
  "fst (fetch_pages w ps (devs, st)) =
     devs @ concat (map (\<lambda>p. items (device_pages w (page_url p))) ps)"
  by (induction ps arbitrary: devs st) (simp_all add: Let_def)


lemma getDevices_items:
  "fst (getDevices w st) =
     sort_key (\<lambda>i. str_upper w (name i))
       (items (device_pages w (page_url 1))
        @ (if 1 < pagination_totalPages (device_pages w (page_url 1))
           then concat (map (\<lambda>p. items (device_pages w (page_url p)))
                          [2..pagination_totalPages (device_pages w (page_url 1))])
           else []))"
  by (simp add: getDevices_def Let_def page_url_1 split_beta fetch_pages_items)


text \<open>
  Claim C6. \<open>getDevices\<close> returns the items of the pages 1 to \<open>totalPages\<close>, concatenated
  in page order, none dropped and none repeated, sorted by the key of the script's
  case-insensitive order, the name as \<^verbatim>\<open>str.upper\<close> returns it. The first page is
  requested whatever it says, so the pages are 1 to \<open>totalPages\<close> when the first page
  reports at least one page, or reports none and has no items.
\<close>

theorem getDevices_all_pages_sorted:
  assumes "1 \<le> pagination_totalPages (device_pages w (page_url 1))
           \<or> items (device_pages w (page_url 1)) = []"
  shows "fst (getDevices w st) =
           sort_key (\<lambda>i. str_upper w (name i))
             (concat (map (\<lambda>p. items (device_pages w (page_url p)))
                        [1..pagination_totalPages (device_pages w (page_url 1))]))
         \<and> mset (fst (getDevices w st)) =
             mset (concat (map (\<lambda>p. items (device_pages w (page_url p)))
                             [1..pagination_totalPages (device_pages w (page_url 1))]))
         \<and> sorted (map (\<lambda>i. str_upper w (name i)) (fst (getDevices w st)))"
proof -
  let ?tp = "pagination_totalPages (device_pages w (page_url 1))"
  let ?it = "\<lambda>p. items (device_pages w (page_url p))"
  have "items (device_pages w (page_url 1))
        @ (if 1 < ?tp then concat (map ?it [2..?tp]) else [])
        = concat (map ?it [1..?tp])"
  proof (cases "1 \<le> ?tp")
    case True
    then have "[1..?tp] = 1 # [2..?tp]" by (simp add: upto_rec1)
    moreover have "\<not> 1 < ?tp \<Longrightarrow> [2..?tp] = []" by simp
    ultimately show ?thesis by auto
  next
    case False
    with assms show ?thesis by simp
  qed
  then have eq: "fst (getDevices w st) = sort_key (\<lambda>i. str_upper w (name i)) (concat (map ?it [1..?tp]))"
    by (simp only: getDevices_items)
  show ?thesis unfolding eq by simp
qed

theorem getDevices_all_pages_sorted_witness:
  "1 \<le> pagination_totalPages (device_pages example_paged_world (page_url 1))
   \<and> map name (fst (getDevices example_paged_world init_state)) = [''alpha'', ''Beta'', ''gamma'']"
proof -
  let ?w = example_paged_world
  have tp: "pagination_totalPages (device_pages ?w (page_url 1)) = 2"
    by (simp add: example_paged_world_def)
  then have h: "1 \<le> pagination_totalPages (device_pages ?w (page_url 1))
           \<or> items (device_pages ?w (page_url 1)) = []" by simp
  have e: "map name (sort_key (\<lambda>i. str_upper ?w (name i))
             (concat (map (\<lambda>p. items (device_pages ?w (page_url p))) [1..2])))
           = [''alpha'', ''Beta'', ''gamma'']"
    by code_simp
  from getDevices_all_pages_sorted [OF h, of init_state] e tp show ?thesis by simp
qed

section \<open>The whole run\<close>












end
